theory Spec2Isabelle
  imports
    Complex_Main
    "HOL-Library.Multiset"
    "HOL-Library.Char_ord"
    "HOL-Library.List_Lexorder"
    "HOL-Library.Product_Lexorder"
    "HOL-Library.Option_ord"
begin

section \<open>Cells, rows and the Python library functions the code calls\<close>

text \<open>
  A cell of a pandas frame is \<^verbatim>\<open>None\<close>, the float \<^verbatim>\<open>nan\<close>, a text or a number.
  Floats are modelled as reals. Strings are byte strings; the embedding is exact on
  ASCII text.
\<close>

datatype cell = PyNone | NaN | Str string | Num real

text \<open>
  Library functions that are not part of the repository are parameters of the model:
  \<^verbatim>\<open>hashlib.md5(s.encode()).hexdigest()\<close>, \<^verbatim>\<open>str\<close> on a float, \<^verbatim>\<open>float\<close> on a text
  (\<open>Inl\<close> carries the text of the \<^verbatim>\<open>ValueError\<close>) and the text parser of
  \<^verbatim>\<open>pd.to_numeric(..., errors='coerce')\<close> (\<open>None\<close> where it yields \<^verbatim>\<open>nan\<close>).
\<close>

record builtins =
  md5_hexdigest :: "string \<Rightarrow> string"
  str_of_float :: "real \<Rightarrow> string"
  float_of_str :: "string \<Rightarrow> string + real"
  to_numeric :: "string \<Rightarrow> real option"

fun notna :: "cell \<Rightarrow> bool" where
  "notna PyNone = False"
| "notna NaN = False"
| "notna (Str s) = True"
| "notna (Num r) = True"

fun py_str :: "builtins \<Rightarrow> cell \<Rightarrow> string" where
  "py_str B PyNone = ''None''"
| "py_str B NaN = ''nan''"
| "py_str B (Str s) = s"
| "py_str B (Num r) = str_of_float B r"

text \<open>\<^verbatim>\<open>sep.join(xs)\<close>\<close>

fun join :: "string \<Rightarrow> string list \<Rightarrow> string" where
  "join sep [] = []"
| "join sep [x] = x"
| "join sep (x # y # ys) = x @ sep @ join sep (y # ys)"

text \<open>A \<^verbatim>\<open>pd.Series\<close>: the labelled values of one row, in column order.\<close>

type_synonym series = "(string \<times> cell) list"

definition row_values :: "series \<Rightarrow> cell list" where
  "row_values row = map snd row"

text \<open>\<^verbatim>\<open>row.get(k)\<close>: the value under label \<open>k\<close>, \<^verbatim>\<open>None\<close> when the label is absent.\<close>

definition row_get :: "series \<Rightarrow> string \<Rightarrow> cell" where
  "row_get row k = (case map_of row k of None \<Rightarrow> PyNone | Some c \<Rightarrow> c)"

section \<open>marches\_sync.py: the SQLite cache\<close>

subsection \<open>Tables, connection, file system\<close>

text \<open>
  A row of table \<^verbatim>\<open>lignes_factures\<close>. The columns \<^verbatim>\<open>id\<close>, \<^verbatim>\<open>date_import\<close> and
  \<^verbatim>\<open>date_update\<close> are filled by SQLite and read by no modelled operation; the table is
  the list of its rows in \<^verbatim>\<open>id\<close> order.
\<close>

record ligne =
  hash_ligne :: string
  l_marche :: "string option"
  l_fournisseur :: "string option"
  l_libelle :: "string option"
  l_date_sf :: "string option"
  l_num_facture :: "string option"
  l_montant_initial :: real
  l_montant_sf :: real
  l_montant_ttc :: real
  l_num_mandat :: "string option"
  l_tranche :: "string option"
  l_commande :: "string option"

text \<open>
  A row of table \<^verbatim>\<open>sync_info\<close>, the table being the list of its rows in \<^verbatim>\<open>id\<close> order
  (rows are only appended). The message text renders the three counts
  (inserted, deleted, unchanged), kept here as numbers.
\<close>

record sync_row =
  fichier_path :: string
  last_modified :: real
  file_size :: nat
  file_hash :: string
  last_sync :: real
  nb_lignes :: nat
  sync_status :: string
  sync_message :: "nat \<times> nat \<times> nat"

record db =
  lignes_factures :: "ligne list"
  sync_info :: "sync_row list"

text \<open>
  The sqlite3 connection: \<open>committed\<close> is the database as of the last commit,
  \<open>working\<close> is what the connection sees, pending writes included.
\<close>

record connection =
  committed :: db
  working :: db

definition commit :: "connection \<Rightarrow> connection" where
  "commit c = c\<lparr>committed := working c\<rparr>"

definition rollback :: "connection \<Rightarrow> connection" where
  "rollback c = c\<lparr>working := committed c\<rparr>"

text \<open>
  What \<^verbatim>\<open>os.stat\<close> and reading the file give for a path; \<open>digest\<close> is the MD5 hex
  digest of the file's bytes, \<open>None\<close> when the file cannot be read.
\<close>

record file_stat =
  st_size :: nat
  st_mtime :: real
  digest :: "string option"

type_synonym filesystem = "string \<Rightarrow> file_stat option"

text \<open>
  The storage operations that can raise; \<open>F op = Some msg\<close> says that the operation
  raises an exception whose text is \<open>msg\<close>.
\<close>

datatype db_op =
  SelectSyncInfo | SelectHashes | InsertLignes | DeleteLignes | InsertSyncInfo | Commit

type_synonym faults = "db_op \<Rightarrow> string option"

subsection \<open>Hashes\<close>

definition calculate_file_hash :: "filesystem \<Rightarrow> string \<Rightarrow> string" where
  "calculate_file_hash fs filepath =
     (case fs filepath of
        None \<Rightarrow> ''''
      | Some f \<Rightarrow> (case digest f of None \<Rightarrow> '''' | Some h \<Rightarrow> h))"

definition calculate_row_hash :: "builtins \<Rightarrow> series \<Rightarrow> string" where
  "calculate_row_hash B row =
     md5_hexdigest B (join ''|'' (map (py_str B) (row_values row)))"

subsection \<open>file\_needs\_sync\<close>

datatype reason =
    FichierIntrouvable
  | PremiereSynchronisation
  | TailleChangee nat nat
  | BaseVide
  | ContenuModifie
  | InchangeDateModifiee
  | Inchange

text \<open>\<^verbatim>\<open>... WHERE fichier_path = ? ORDER BY id DESC LIMIT 1\<close>\<close>

definition last_snapshot :: "sync_row list \<Rightarrow> string \<Rightarrow> sync_row option" where
  "last_snapshot infos filepath = find (\<lambda>s. fichier_path s = filepath) (rev infos)"

definition file_needs_sync ::
  "faults \<Rightarrow> filesystem \<Rightarrow> connection \<Rightarrow> string \<Rightarrow> string + (bool \<times> reason)" where
  "file_needs_sync F fs conn filepath =
     (case fs filepath of
        None \<Rightarrow> Inr (True, FichierIntrouvable)
      | Some f \<Rightarrow>
          (case F SelectSyncInfo of
             Some e \<Rightarrow> Inl e
           | None \<Rightarrow>
               (case last_snapshot (sync_info (working conn)) filepath of
                  None \<Rightarrow> Inr (True, PremiereSynchronisation)
                | Some s \<Rightarrow>
                    if st_size f \<noteq> file_size s then
                      Inr (True, TailleChangee (file_size s) (st_size f))
                    else if nb_lignes s = 0 then Inr (True, BaseVide)
                    else if \<bar>st_mtime f - last_modified s\<bar> > 1 then
                      (if calculate_file_hash fs filepath \<noteq> file_hash s
                       then Inr (True, ContenuModifie)
                       else Inr (False, InchangeDateModifiee))
                    else Inr (False, Inchange))))"

subsection \<open>sync\_from\_excel\<close>

datatype message = Reason reason | ErrorText string

record stats =
  nb_inserted :: nat
  nb_updated :: nat
  nb_unchanged :: nat
  nb_deleted :: nat
  duration :: real
  status :: string
  message :: "message option"

text \<open>The four readings of \<^verbatim>\<open>datetime.now()\<close> in one call, in program order.\<close>

record clock =
  t_start :: real
  t_mtime :: real
  t_sync :: real
  t_end :: real

definition text_field :: "builtins \<Rightarrow> series \<Rightarrow> string \<Rightarrow> string option" where
  "text_field B row k =
     (if notna (row_get row k) then Some (py_str B (row_get row k)) else None)"

definition real_field :: "builtins \<Rightarrow> series \<Rightarrow> string \<Rightarrow> string + real" where
  "real_field B row k =
     (case row_get row k of
        PyNone \<Rightarrow> Inr 0
      | NaN \<Rightarrow> Inr 0
      | Num r \<Rightarrow> Inr r
      | Str s \<Rightarrow> float_of_str B s)"

text \<open>The dictionary \<^verbatim>\<open>row_data\<close>; a \<^verbatim>\<open>float(...)\<close> that raises aborts it.\<close>

definition row_data :: "builtins \<Rightarrow> string \<Rightarrow> series \<Rightarrow> string + ligne" where
  "row_data B h row =
     (case real_field B row ''montant_initial'' of
        Inl e \<Rightarrow> Inl e
      | Inr mi \<Rightarrow>
          (case real_field B row ''montant_sf'' of
             Inl e \<Rightarrow> Inl e
           | Inr msf \<Rightarrow>
               (case real_field B row ''montant_ttc'' of
                  Inl e \<Rightarrow> Inl e
                | Inr mttc \<Rightarrow>
                    Inr \<lparr>hash_ligne = h,
                         l_marche = text_field B row ''marche'',
                         l_fournisseur = text_field B row ''fournisseur'',
                         l_libelle = text_field B row ''libelle'',
                         l_date_sf = text_field B row ''date_sf'',
                         l_num_facture = text_field B row ''num_facture'',
                         l_montant_initial = mi,
                         l_montant_sf = msf,
                         l_montant_ttc = mttc,
                         l_num_mandat = text_field B row ''num_mandat'',
                         l_tranche = text_field B row ''tranche'',
                         l_commande = text_field B row ''commande''\<rparr>)))"

text \<open>
  The loop over \<^verbatim>\<open>df.iterrows()\<close>. The accumulator is \<^verbatim>\<open>stats['nb_unchanged']\<close>, the set
  \<^verbatim>\<open>new_hashes\<close> (a duplicate-free list) and \<^verbatim>\<open>rows_to_insert\<close>. An exception leaves
  with its text and the count reached so far.
\<close>

fun iterrows ::
  "builtins \<Rightarrow> string list \<Rightarrow> series list \<Rightarrow> nat \<times> string list \<times> ligne list
     \<Rightarrow> (string \<times> nat) + (nat \<times> string list \<times> ligne list)" where
  "iterrows B existing [] acc = Inr acc"
| "iterrows B existing (row # rows) (n, new, ins) =
     (let h = calculate_row_hash B row in
      case row_data B h row of
        Inl e \<Rightarrow> Inl (e, n)
      | Inr d \<Rightarrow>
          if h \<in> set existing
          then iterrows B existing rows (Suc n, List.insert h new, ins)
          else iterrows B existing rows (n, List.insert h new, ins @ [d]))"

text \<open>
  \<^verbatim>\<open>INSERT OR REPLACE\<close> under the \<^verbatim>\<open>UNIQUE\<close> constraint on \<^verbatim>\<open>hash_ligne\<close>: a stored
  row with the same hash is removed, the new row gets a fresh, largest id.
\<close>

definition insert_or_replace :: "ligne list \<Rightarrow> ligne \<Rightarrow> ligne list" where
  "insert_or_replace tbl d = filter (\<lambda>l. hash_ligne l \<noteq> hash_ligne d) tbl @ [d]"

definition executemany_insert :: "ligne list \<Rightarrow> ligne list \<Rightarrow> ligne list" where
  "executemany_insert tbl ds = foldl insert_or_replace tbl ds"

text \<open>\<^verbatim>\<open>DELETE FROM lignes_factures WHERE hash_ligne IN (...)\<close>\<close>

definition delete_hashes :: "ligne list \<Rightarrow> string list \<Rightarrow> ligne list" where
  "delete_hashes tbl hs = filter (\<lambda>l. hash_ligne l \<notin> set hs) tbl"

definition initial_stats :: stats where
  "initial_stats =
     \<lparr>nb_inserted = 0, nb_updated = 0, nb_unchanged = 0, nb_deleted = 0,
      duration = 0, status = ''success'', message = None\<rparr>"

text \<open>The \<^verbatim>\<open>except\<close> branch followed by the two statements after the \<^verbatim>\<open>try\<close>.\<close>

definition on_error :: "clock \<Rightarrow> connection \<Rightarrow> stats \<Rightarrow> string \<Rightarrow> stats \<times> connection" where
  "on_error clk conn st e =
     (st\<lparr>status := ''error'', message := Some (ErrorText e),
         duration := t_end clk - t_start clk\<rparr>,
      rollback conn)"

text \<open>The row appended to \<^verbatim>\<open>sync_info\<close>; a path that is no file is a synthetic source.\<close>

definition snapshot_row ::
  "filesystem \<Rightarrow> clock \<Rightarrow> string \<Rightarrow> nat \<Rightarrow> stats \<Rightarrow> sync_row" where
  "snapshot_row fs clk filepath n st =
     (case fs filepath of
        Some f \<Rightarrow>
          \<lparr>fichier_path = filepath, last_modified = st_mtime f, file_size = st_size f,
           file_hash = calculate_file_hash fs filepath, last_sync = t_sync clk,
           nb_lignes = n, sync_status = ''success'',
           sync_message = (nb_inserted st, nb_deleted st, nb_unchanged st)\<rparr>
      | None \<Rightarrow>
          \<lparr>fichier_path = filepath, last_modified = t_mtime clk, file_size = 0,
           file_hash = ''database_sync'', last_sync = t_sync clk,
           nb_lignes = n, sync_status = ''success'',
           sync_message = (nb_inserted st, nb_deleted st, nb_unchanged st)\<rparr>)"

text \<open>The body of the \<^verbatim>\<open>try\<close> after the check whether a synchronisation is needed.\<close>

definition sync_body ::
  "builtins \<Rightarrow> faults \<Rightarrow> filesystem \<Rightarrow> clock \<Rightarrow> connection \<Rightarrow> string \<Rightarrow> series list
     \<Rightarrow> stats \<times> connection" where
  "sync_body B F fs clk conn filepath df =
     (case F SelectHashes of
        Some e \<Rightarrow> on_error clk conn initial_stats e
      | None \<Rightarrow>
         (let existing_hashes = remdups (map hash_ligne (lignes_factures (working conn))) in
          case iterrows B existing_hashes df (0, [], []) of
            Inl (e, n) \<Rightarrow> on_error clk conn (initial_stats\<lparr>nb_unchanged := n\<rparr>) e
          | Inr (n, new_hashes, rows_to_insert) \<Rightarrow>
             (let st1 = initial_stats\<lparr>nb_unchanged := n\<rparr> in
              if rows_to_insert \<noteq> [] \<and> F InsertLignes \<noteq> None
              then on_error clk conn st1 (the (F InsertLignes))
              else
               (let tbl1 = (if rows_to_insert \<noteq> []
                            then executemany_insert (lignes_factures (working conn)) rows_to_insert
                            else lignes_factures (working conn));
                    st2 = (if rows_to_insert \<noteq> []
                           then st1\<lparr>nb_inserted := length rows_to_insert\<rparr> else st1);
                    hashes_to_delete = filter (\<lambda>h. h \<notin> set new_hashes) existing_hashes
                in
                if hashes_to_delete \<noteq> [] \<and> F DeleteLignes \<noteq> None
                then on_error clk (conn\<lparr>working := (working conn)\<lparr>lignes_factures := tbl1\<rparr>\<rparr>)
                       st2 (the (F DeleteLignes))
                else
                 (let tbl2 = (if hashes_to_delete \<noteq> []
                              then delete_hashes tbl1 hashes_to_delete else tbl1);
                      st3 = (if hashes_to_delete \<noteq> []
                             then st2\<lparr>nb_deleted := length hashes_to_delete\<rparr> else st2);
                      conn2 = conn\<lparr>working := (working conn)\<lparr>lignes_factures := tbl2\<rparr>\<rparr>
                  in
                  case F InsertSyncInfo of
                    Some e \<Rightarrow> on_error clk conn2 st3 e
                  | None \<Rightarrow>
                     (let conn3 = conn2\<lparr>working := (working conn2)
                            \<lparr>sync_info := sync_info (working conn2)
                               @ [snapshot_row fs clk filepath (length df) st3]\<rparr>\<rparr>
                      in
                      case F Commit of
                        Some e \<Rightarrow> on_error clk conn3 st3 e
                      | None \<Rightarrow>
                          (st3\<lparr>duration := t_end clk - t_start clk\<rparr>, commit conn3)))))))"

definition sync_from_excel ::
  "builtins \<Rightarrow> faults \<Rightarrow> filesystem \<Rightarrow> clock \<Rightarrow> connection \<Rightarrow> string \<Rightarrow> series list \<Rightarrow> bool
     \<Rightarrow> stats \<times> connection" where
  "sync_from_excel B F fs clk conn filepath df force =
     (if force then sync_body B F fs clk conn filepath df
      else
        (case file_needs_sync F fs conn filepath of
           Inl e \<Rightarrow> on_error clk conn initial_stats e
         | Inr (needs_sync, reason) \<Rightarrow>
             if \<not> needs_sync
             then (initial_stats\<lparr>status := ''skipped'', message := Some (Reason reason)\<rparr>, conn)
             else sync_body B F fs clk conn filepath df))"

section \<open>The override store (class Database)\<close>

text \<open>
  The columns of tables \<^verbatim>\<open>marches\<close>, \<^verbatim>\<open>avenants\<close> and \<^verbatim>\<open>tranches\<close> that the modelled
  code reads; \<open>None\<close> is SQL \<^verbatim>\<open>NULL\<close>.
\<close>

record marche_rec =
  m_code_marche :: string
  type_marche :: "string option"
  montant_initial_manuel :: "real option"

record avenant_rec =
  a_code_marche :: string
  numero_avenant :: "int option"
  a_montant :: "real option"
  type_modification :: "string option"

record tranche_rec =
  t_code_marche :: string
  code_tranche :: string
  t_montant :: "real option"
  ordre :: "int option"

record database =
  marches :: "marche_rec list"
  avenants :: "avenant_rec list"
  tranches :: "tranche_rec list"

definition get_marche :: "database \<Rightarrow> string \<Rightarrow> marche_rec option" where
  "get_marche d code = find (\<lambda>m. m_code_marche m = code) (marches d)"

definition get_avenants :: "database \<Rightarrow> string \<Rightarrow> avenant_rec list" where
  "get_avenants d code =
     sort_key numero_avenant (filter (\<lambda>a. a_code_marche a = code) (avenants d))"

definition get_tranches :: "database \<Rightarrow> string \<Rightarrow> tranche_rec list" where
  "get_tranches d code =
     sort_key ordre (filter (\<lambda>t. t_code_marche t = code) (tranches d))"

text \<open>\<^verbatim>\<open>x or 0.0\<close> on a nullable number.\<close>

definition or_zero :: "real option \<Rightarrow> real" where
  "or_zero x = (case x of None \<Rightarrow> 0 | Some r \<Rightarrow> r)"

text \<open>The truth value Python gives a nullable number.\<close>

definition truthy :: "real option \<Rightarrow> bool" where
  "truthy x = (case x of None \<Rightarrow> False | Some r \<Rightarrow> r \<noteq> 0)"

definition montant_avenant :: "avenant_rec \<Rightarrow> real" where
  "montant_avenant a =
     (if type_modification a = Some ''Diminution''
      then - or_zero (a_montant a) else or_zero (a_montant a))"

definition get_montant_total_marche :: "database \<Rightarrow> string \<Rightarrow> real" where
  "get_montant_total_marche d code =
     (case get_marche d code of
        None \<Rightarrow> 0
      | Some m \<Rightarrow>
          (let tm = (case type_marche m of
                       None \<Rightarrow> ''CLASSIQUE''
                     | Some t \<Rightarrow> if t = [] then ''CLASSIQUE'' else t);
               montant_initial = or_zero (montant_initial_manuel m);
               montant_initial1 =
                 (if tm = ''CLASSIQUE'' \<and> get_tranches d code \<noteq> []
                  then montant_initial
                         + sum_list (map (\<lambda>t. or_zero (t_montant t)) (get_tranches d code))
                  else montant_initial)
           in foldl (\<lambda>acc a. acc + montant_avenant a) montant_initial1 (get_avenants d code)))"

section \<open>marches\_module.py: the analyzer\<close>

text \<open>
  A row of \<^verbatim>\<open>df_marches\<close>, with one field for each column the analyzer reads by
  position (\<^verbatim>\<open>COL_MARCHE\<close>, ...). The frame keeps only rows whose contract code is
  present and not empty, and the cache stores the code as text: the code is a string.
\<close>

record excel_row =
  col_montant_initial :: cell
  col_montant_ttc :: cell
  col_montant_sf :: cell
  col_date_sf :: cell
  col_commande :: cell
  col_marche :: string
  col_tranche :: cell
  col_mandat :: cell
  col_fournisseur :: cell
  col_libelle :: cell
  col_facture :: cell

text \<open>\<^verbatim>\<open>pd.to_numeric(column, errors='coerce').fillna(0.0)\<close> on one cell.\<close>

definition coerce :: "builtins \<Rightarrow> cell \<Rightarrow> real" where
  "coerce B c =
     (case c of
        Num r \<Rightarrow> r
      | Str s \<Rightarrow> (case to_numeric B s of None \<Rightarrow> 0 | Some r \<Rightarrow> r)
      | PyNone \<Rightarrow> 0
      | NaN \<Rightarrow> 0)"

text \<open>\<^verbatim>\<open>Series.unique()\<close>: the distinct values in order of first appearance.\<close>

definition unique :: "'a list \<Rightarrow> 'a list" where
  "unique xs = rev (remdups (rev xs))"

text \<open>The element-wise \<^verbatim>\<open>column == value\<close> of pandas; a missing cell equals nothing.\<close>

fun cell_eq :: "cell \<Rightarrow> cell \<Rightarrow> bool" where
  "cell_eq (Str a) (Str b) = (a = b)"
| "cell_eq (Num a) (Num b) = (a = b)"
| "cell_eq _ _ = False"

text \<open>The mask on the tranche column, for the argument \<open>tranche\<close>.\<close>

definition tranche_matches :: "cell \<Rightarrow> cell \<Rightarrow> bool" where
  "tranche_matches tranche c = (if \<not> notna tranche then \<not> notna c else cell_eq c tranche)"

definition rows_of_tranche :: "excel_row list \<Rightarrow> string \<Rightarrow> cell \<Rightarrow> excel_row list" where
  "rows_of_tranche df marche tranche =
     filter (\<lambda>r. col_marche r = marche \<and> tranche_matches tranche (col_tranche r)) df"

text \<open>Decimal digits of a natural number, and \<^verbatim>\<open>str\<close> of an integer.\<close>

fun digits :: "nat \<Rightarrow> string" where
  "digits n =
     (if n < 10 then [char_of (48 + n)]
      else digits (n div 10) @ [char_of (48 + n mod 10)])"

definition str_of_int :: "int \<Rightarrow> string" where
  "str_of_int i = (if i < 0 then ''-'' @ digits (nat (- i)) else digits (nat i))"

text \<open>\<^verbatim>\<open>int(x)\<close> on a float: truncation towards zero.\<close>

definition py_int :: "real \<Rightarrow> int" where
  "py_int r = (if r \<ge> 0 then \<lfloor>r\<rfloor> else \<lceil>r\<rceil>)"

text \<open>\<^verbatim>\<open>float(tranche)\<close> under \<^verbatim>\<open>try\<close>: \<open>None\<close> when it raises.\<close>

definition tranche_num :: "builtins \<Rightarrow> cell \<Rightarrow> real option" where
  "tranche_num B tranche =
     (case tranche of
        Num r \<Rightarrow> Some r
      | Str s \<Rightarrow> (case float_of_str B s of Inl e \<Rightarrow> None | Inr r \<Rightarrow> Some r)
      | PyNone \<Rightarrow> None
      | NaN \<Rightarrow> None)"

text \<open>
  The block under \<^verbatim>\<open>if self.db:\<close> of \<^verbatim>\<open>calculate_montant_initial_tranche\<close>: \<open>Some\<close> is
  the amount it returns, \<open>None\<close> says that it falls through to the computation from rows.
\<close>

definition montant_tranche_db :: "builtins \<Rightarrow> database \<Rightarrow> string \<Rightarrow> cell \<Rightarrow> real option" where
  "montant_tranche_db B d marche tranche =
     (if \<not> notna tranche \<or> tranche_num B tranche = Some 0 then
        (case get_marche d marche of
           None \<Rightarrow> None
         | Some m \<Rightarrow>
             if truthy (montant_initial_manuel m) then montant_initial_manuel m else None)
      else
        (let code = (case tranche_num B tranche of
                       Some r \<Rightarrow> ''TO'' @ str_of_int (py_int r)
                     | None \<Rightarrow> py_str B tranche)
         in case find (\<lambda>t. t_code_marche t = marche \<and> code_tranche t = code) (tranches d) of
              None \<Rightarrow> None
            | Some t \<Rightarrow> if truthy (t_montant t) then t_montant t else None))"

text \<open>The same with \<^verbatim>\<open>self.db\<close> optional: without a store there is no override.\<close>

definition override_amount ::
  "builtins \<Rightarrow> database option \<Rightarrow> string \<Rightarrow> cell \<Rightarrow> real option" where
  "override_amount B dbo marche tranche =
     (case dbo of None \<Rightarrow> None | Some d \<Rightarrow> montant_tranche_db B d marche tranche)"

definition calculate_montant_initial_tranche ::
  "builtins \<Rightarrow> database option \<Rightarrow> excel_row list \<Rightarrow> string \<Rightarrow> cell \<Rightarrow> real" where
  "calculate_montant_initial_tranche B dbo df marche tranche =
     (case override_amount B dbo marche tranche of
        Some m \<Rightarrow> m
      | None \<Rightarrow>
          (let df_tranche = rows_of_tranche df marche tranche in
           if df_tranche = [] then 0
           else sum_list (unique (filter (\<lambda>x. x > 1 / 100)
                  (map (\<lambda>r. coerce B (col_montant_initial r)) df_tranche)))))"

definition calculate_service_fait_tranche ::
  "builtins \<Rightarrow> excel_row list \<Rightarrow> string \<Rightarrow> cell \<Rightarrow> real" where
  "calculate_service_fait_tranche B df marche tranche =
     (let df_tranche = rows_of_tranche df marche tranche in
      if df_tranche = [] then 0
      else sum_list (map (\<lambda>r. coerce B (col_montant_sf r)) df_tranche))"

text \<open>The mask \<^verbatim>\<open>column.notna() & (column != '')\<close> on the mandate column.\<close>

definition mandat_renseigne :: "cell \<Rightarrow> bool" where
  "mandat_renseigne c = (notna c \<and> c \<noteq> Str [])"

definition calculate_paye_tranche ::
  "builtins \<Rightarrow> excel_row list \<Rightarrow> string \<Rightarrow> cell \<Rightarrow> real" where
  "calculate_paye_tranche B df marche tranche =
     (let df_tranche =
            filter (\<lambda>r. mandat_renseigne (col_mandat r)) (rows_of_tranche df marche tranche)
      in if df_tranche = [] then 0
         else sum_list (map (\<lambda>r. coerce B (col_montant_ttc r)) df_tranche))"

subsection \<open>extract\_operation\<close>

text \<open>\<^verbatim>\<open>str.isspace\<close> and \<^verbatim>\<open>str.isdigit\<close> on ASCII characters, \<^verbatim>\<open>str.strip()\<close>.\<close>

definition is_space :: "char \<Rightarrow> bool" where
  "is_space c =
     (let n = (of_char c :: nat) in (9 \<le> n \<and> n \<le> 13) \<or> (28 \<le> n \<and> n \<le> 32))"

definition is_digit :: "char \<Rightarrow> bool" where
  "is_digit c = (let n = (of_char c :: nat) in 48 \<le> n \<and> n \<le> 57)"

definition strip :: "string \<Rightarrow> string" where
  "strip s = rev (dropWhile is_space (rev (dropWhile is_space s)))"

definition isdigit :: "string \<Rightarrow> bool" where
  "isdigit s = (s \<noteq> [] \<and> list_all is_digit s)"

text \<open>\<^verbatim>\<open>s.rfind(c)\<close>: the index of the last occurrence, \<open>-1\<close> when there is none.\<close>

primrec rfind_from :: "char \<Rightarrow> string \<Rightarrow> int \<Rightarrow> int \<Rightarrow> int" where
  "rfind_from c [] i found = found"
| "rfind_from c (x # xs) i found = rfind_from c xs (i + 1) (if x = c then i else found)"

definition rfind :: "string \<Rightarrow> char \<Rightarrow> int" where
  "rfind s c = rfind_from c s 0 (- 1)"

definition extract_operation :: "string \<Rightarrow> string" where
  "extract_operation marche =
     (if marche = [] then []
      else
        (let normalized = strip marche;
             nb_underscores = count_list normalized (CHR ''_'');
             nb_dashes = count_list normalized (CHR ''-'');
             total_separators = nb_underscores + nb_dashes
         in if total_separators < 2 then normalized
            else
              (let last_sep = max (rfind normalized (CHR ''_'')) (rfind normalized (CHR ''-''));
                   suffix = drop (nat (last_sep + 1)) normalized
               in if last_sep > 0 \<and> isdigit suffix \<and> length suffix \<le> 2
                  then take (nat last_sep) normalized
                  else normalized)))"

subsection \<open>get\_vision\_globale\<close>

record vision_marche =
  v_marche :: string
  v_operation :: string
  v_libelle_marche :: cell
  v_fournisseur :: cell
  v_montant_initial_marche :: real
  v_service_fait_cumule :: real
  v_paye_cumule :: real
  v_reste_a_realiser :: real
  v_reste_a_mandater :: real
  v_pourcent_consomme :: real
  v_nb_avenants :: nat
  v_montant_excel :: real

text \<open>\<^verbatim>\<open>column.dropna().iloc[0]\<close>, or the empty text when nothing is left.\<close>

definition first_notna :: "cell list \<Rightarrow> cell" where
  "first_notna cs = (case filter notna cs of [] \<Rightarrow> Str [] | c # _ \<Rightarrow> c)"

text \<open>
  The part of the loop body that resolves the amount of one contract: the triple
  \<^verbatim>\<open>(montant_initial_marche, montant_excel, nb_avenants)\<close>.
\<close>

definition montant_marche ::
  "builtins \<Rightarrow> database option \<Rightarrow> excel_row list \<Rightarrow> string \<Rightarrow> real \<times> real \<times> nat" where
  "montant_marche B dbo df marche =
     (let df_marche = filter (\<lambda>r. col_marche r = marche) df;
          montant_bd = (case dbo of None \<Rightarrow> 0 | Some d \<Rightarrow> get_montant_total_marche d marche);
          from_bd = (dbo \<noteq> None \<and> montant_bd > 0);
          montant0 = (if from_bd then montant_bd else 0);
          nb = (case dbo of
                  None \<Rightarrow> 0
                | Some d \<Rightarrow> if from_bd then length (get_avenants d marche) else 0);
          montant_excel =
            (if montant0 = 0
             then sum_list (map (calculate_montant_initial_tranche B dbo df marche)
                    (unique (map col_tranche df_marche)))
             else 0)
      in (if montant0 = 0 then montant_excel else montant0, montant_excel, nb))"

definition vision_of_marche ::
  "builtins \<Rightarrow> database option \<Rightarrow> excel_row list \<Rightarrow> string \<Rightarrow> vision_marche" where
  "vision_of_marche B dbo df marche =
     (let df_marche = filter (\<lambda>r. col_marche r = marche) df;
          (montant_initial, montant_excel, nb) = montant_marche B dbo df marche;
          service_fait = sum_list (map (\<lambda>r. coerce B (col_montant_sf r)) df_marche);
          paye = sum_list (map (\<lambda>r. coerce B (col_montant_ttc r))
                   (filter (\<lambda>r. mandat_renseigne (col_mandat r)) df_marche))
      in \<lparr>v_marche = marche,
          v_operation = extract_operation marche,
          v_libelle_marche = first_notna (map col_libelle df_marche),
          v_fournisseur = first_notna (map col_fournisseur df_marche),
          v_montant_initial_marche = montant_initial,
          v_service_fait_cumule = service_fait,
          v_paye_cumule = paye,
          v_reste_a_realiser = montant_initial - service_fait,
          v_reste_a_mandater = service_fait - paye,
          v_pourcent_consomme =
            (if montant_initial > 0 then service_fait / montant_initial * 100 else 0),
          v_nb_avenants = nb,
          v_montant_excel = montant_excel\<rparr>)"

definition get_vision_globale ::
  "builtins \<Rightarrow> database option \<Rightarrow> excel_row list \<Rightarrow> vision_marche list" where
  "get_vision_globale B dbo df =
     sort_key v_marche (map (vision_of_marche B dbo df) (unique (map col_marche df)))"

subsection \<open>get\_historique\_factures\<close>

datatype statut = Paye | ServiceFait | Facturee | EnAttente

record historique =
  h_marche :: string
  h_fournisseur :: string
  h_date_sf :: string
  h_num_facture :: string
  h_libelle :: string
  h_montant_sf :: real
  h_montant_ttc :: real
  h_num_mandat :: string
  h_statut :: statut

text \<open>\<^verbatim>\<open>float(x) if pd.notna(x) else 0.0\<close> under \<^verbatim>\<open>try\<close>, \<open>0\<close> when it raises.\<close>

definition float_or_zero :: "builtins \<Rightarrow> cell \<Rightarrow> real" where
  "float_or_zero B c =
     (case c of
        Num r \<Rightarrow> r
      | Str s \<Rightarrow> (case float_of_str B s of Inl e \<Rightarrow> 0 | Inr r \<Rightarrow> r)
      | PyNone \<Rightarrow> 0
      | NaN \<Rightarrow> 0)"

text \<open>\<^verbatim>\<open>str(x) if pd.notna(x) else ""\<close>\<close>

definition str_or_empty :: "builtins \<Rightarrow> cell \<Rightarrow> string" where
  "str_or_empty B c = (if notna c then py_str B c else [])"

definition historique_of_row :: "builtins \<Rightarrow> excel_row \<Rightarrow> historique" where
  "historique_of_row B row =
     (let montant_sf = float_or_zero B (col_montant_sf row);
          montant_ttc = float_or_zero B (col_montant_ttc row);
          has_mandat = (notna (col_mandat row) \<and> strip (py_str B (col_mandat row)) \<noteq> []);
          has_facture = (notna (col_facture row) \<and> strip (py_str B (col_facture row)) \<noteq> []);
          has_sf = (montant_sf > 1 / 100)
      in \<lparr>h_marche = col_marche row,
          h_fournisseur = str_or_empty B (col_fournisseur row),
          h_date_sf = str_or_empty B (col_date_sf row),
          h_num_facture = str_or_empty B (col_facture row),
          h_libelle = str_or_empty B (col_libelle row),
          h_montant_sf = montant_sf,
          h_montant_ttc = montant_ttc,
          h_num_mandat = str_or_empty B (col_mandat row),
          h_statut = (if has_mandat then Paye else if has_sf then ServiceFait
                      else if has_facture then Facturee else EnAttente)\<rparr>)"

text \<open>
  \<^verbatim>\<open>list.sort(key=k, reverse=True)\<close>: descending and stable; CPython reverses the list,
  sorts it ascending with its stable sort and reverses the result.
\<close>

definition sort_reverse :: "('a \<Rightarrow> 'k::linorder) \<Rightarrow> 'a list \<Rightarrow> 'a list" where
  "sort_reverse k xs = rev (sort_key k (rev xs))"

text \<open>The optional argument: \<^verbatim>\<open>None\<close> and the empty text select every contract.\<close>

definition get_historique_factures ::
  "builtins \<Rightarrow> excel_row list \<Rightarrow> string option \<Rightarrow> historique list" where
  "get_historique_factures B df marche =
     (let df_filtered =
            (case marche of
               None \<Rightarrow> df
             | Some m \<Rightarrow> if m = [] then df else filter (\<lambda>r. col_marche r = m) df)
      in sort_reverse (\<lambda>h. (h_marche h, h_date_sf h)) (map (historique_of_row B) df_filtered))"

section \<open>Notions in which the properties are stated\<close>

text \<open>The separators of a contract code, and how many a code has.\<close>

definition is_sep :: "char \<Rightarrow> bool" where
  "is_sep c = (c = CHR ''_'' \<or> c = CHR ''-'')"

definition nb_separators :: "string \<Rightarrow> nat" where
  "nb_separators s = count_list s (CHR ''_'') + count_list s (CHR ''-'')"

text \<open>
  The hashes of the stored rows, the hashes of the incoming rows, and the counters of a
  completed synchronisation.
\<close>

definition stored_hashes :: "connection \<Rightarrow> string list" where
  "stored_hashes conn = map hash_ligne (lignes_factures (working conn))"

definition incoming_hashes :: "builtins \<Rightarrow> series list \<Rightarrow> string list" where
  "incoming_hashes B df = map (calculate_row_hash B) df"

definition final_stats :: "nat \<Rightarrow> nat \<Rightarrow> nat \<Rightarrow> stats" where
  "final_stats n i d = initial_stats\<lparr>nb_unchanged := n, nb_inserted := i, nb_deleted := d\<rparr>"

text \<open>The rows that \<open>get_historique_factures\<close> keeps for its optional argument.\<close>

definition selected_rows :: "excel_row list \<Rightarrow> string option \<Rightarrow> excel_row list" where
  "selected_rows df marche =
     (case marche of
        None \<Rightarrow> df
      | Some m \<Rightarrow> if m = [] then df else filter (\<lambda>r. col_marche r = m) df)"

text \<open>
  A contract is CLASSIC when its kind is \<^verbatim>\<open>CLASSIQUE\<close> or not filled in; the fallback of
  the contract total is the sum of \<open>calculate_montant_initial_tranche\<close> over the distinct
  tranches of the contract's rows.
\<close>

definition classique :: "marche_rec \<Rightarrow> bool" where
  "classique m = (type_marche m = None \<or> type_marche m = Some [] \<or> type_marche m = Some ''CLASSIQUE'')"

definition somme_tranches_excel ::
  "builtins \<Rightarrow> database option \<Rightarrow> excel_row list \<Rightarrow> string \<Rightarrow> real" where
  "somme_tranches_excel B dbo df marche =
     sum_list (map (calculate_montant_initial_tranche B dbo df marche)
       (unique (map col_tranche (filter (\<lambda>r. col_marche r = marche) df))))"

text \<open>
  The rule of C3 as the specification words it: coerce, discard the non-positive
  values, deduplicate, sum.
\<close>

definition spec_tranche_initial_amount ::
  "builtins \<Rightarrow> excel_row list \<Rightarrow> string \<Rightarrow> cell \<Rightarrow> real" where
  "spec_tranche_initial_amount B df marche tranche =
     sum_list (unique (filter (\<lambda>x. x > 0)
       (map (\<lambda>r. coerce B (col_montant_initial r)) (rows_of_tranche df marche tranche))))"

text \<open>
  The rule of C4 as the specification words it: the override total when a positive
  manual amount exists, the fallback otherwise.
\<close>

definition spec_montant_initial_marche ::
  "builtins \<Rightarrow> database \<Rightarrow> excel_row list \<Rightarrow> string \<Rightarrow> real" where
  "spec_montant_initial_marche B d df marche =
     (case get_marche d marche of
        None \<Rightarrow> somme_tranches_excel B (Some d) df marche
      | Some m \<Rightarrow>
          if or_zero (montant_initial_manuel m) > 0
          then or_zero (montant_initial_manuel m)
                 + sum_list (map montant_avenant (filter (\<lambda>a. a_code_marche a = marche) (avenants d)))
                 + (if classique m
                    then sum_list (map (\<lambda>t. or_zero (t_montant t))
                           (filter (\<lambda>t. t_code_marche t = marche) (tranches d)))
                    else 0)
          else somme_tranches_excel B (Some d) df marche)"

text \<open>
  What the cache is to hold for an incoming row. A text column holds the text of the cell,
  and nothing for a missing cell; an amount column holds the number of the cell, 0 for a
  missing cell. A row converts when each of its three amount cells is missing, a number,
  or a text that \<^verbatim>\<open>float\<close> accepts.
\<close>

definition cell_text :: "builtins \<Rightarrow> cell \<Rightarrow> string option" where
  "cell_text B c =
     (case c of
        PyNone \<Rightarrow> None
      | NaN \<Rightarrow> None
      | Str s \<Rightarrow> Some s
      | Num r \<Rightarrow> Some (str_of_float B r))"

definition cell_amount :: "builtins \<Rightarrow> cell \<Rightarrow> real" where
  "cell_amount B c =
     (case c of
        PyNone \<Rightarrow> 0
      | NaN \<Rightarrow> 0
      | Num r \<Rightarrow> r
      | Str s \<Rightarrow> (case float_of_str B s of Inl e \<Rightarrow> 0 | Inr r \<Rightarrow> r))"

definition amount_converts :: "builtins \<Rightarrow> cell \<Rightarrow> bool" where
  "amount_converts B c =
     (case c of
        PyNone \<Rightarrow> True
      | NaN \<Rightarrow> True
      | Num r \<Rightarrow> True
      | Str s \<Rightarrow> (case float_of_str B s of Inl e \<Rightarrow> False | Inr r \<Rightarrow> True))"

definition row_converts :: "builtins \<Rightarrow> series \<Rightarrow> bool" where
  "row_converts B row =
     (amount_converts B (row_get row ''montant_initial'')
      \<and> amount_converts B (row_get row ''montant_sf'')
      \<and> amount_converts B (row_get row ''montant_ttc''))"

definition stored_form :: "builtins \<Rightarrow> series \<Rightarrow> ligne" where
  "stored_form B row =
     \<lparr>hash_ligne = calculate_row_hash B row,
      l_marche = cell_text B (row_get row ''marche''),
      l_fournisseur = cell_text B (row_get row ''fournisseur''),
      l_libelle = cell_text B (row_get row ''libelle''),
      l_date_sf = cell_text B (row_get row ''date_sf''),
      l_num_facture = cell_text B (row_get row ''num_facture''),
      l_montant_initial = cell_amount B (row_get row ''montant_initial''),
      l_montant_sf = cell_amount B (row_get row ''montant_sf''),
      l_montant_ttc = cell_amount B (row_get row ''montant_ttc''),
      l_num_mandat = cell_text B (row_get row ''num_mandat''),
      l_tranche = cell_text B (row_get row ''tranche''),
      l_commande = cell_text B (row_get row ''commande'')\<rparr>"

text \<open>
  The incoming rows whose hash is not stored yet, in their order; and, of a list of rows,
  the last row of each hash, in the order of these last rows.
\<close>

definition unseen :: "builtins \<Rightarrow> connection \<Rightarrow> series list \<Rightarrow> series list" where
  "unseen B conn df =
     filter (\<lambda>row. calculate_row_hash B row \<notin> set (stored_hashes conn)) df"

fun last_per_hash :: "ligne list \<Rightarrow> ligne list" where
  "last_per_hash [] = []"
| "last_per_hash (d # ds) =
     (if hash_ligne d \<in> hash_ligne ` set ds then last_per_hash ds else d # last_per_hash ds)"

section \<open>Concrete inputs of the examples\<close>

text \<open>
  Stand-ins for the library functions, to evaluate examples: numbers are read and
  written as decimal integers, and a text stands for its own digest. The theorems hold
  for every choice of these functions.
\<close>

definition parse_nat :: "string \<Rightarrow> nat option" where
  "parse_nat s =
     (if isdigit s then Some (foldl (\<lambda>a c. 10 * a + (of_char c - 48)) 0 s) else None)"

definition stub_builtins :: builtins where
  "stub_builtins =
     \<lparr>md5_hexdigest = (\<lambda>s. s),
      str_of_float = (\<lambda>r. str_of_int \<lfloor>r\<rfloor> @ ''.0''),
      float_of_str = (\<lambda>s. case parse_nat s of
                             None \<Rightarrow> Inl ''could not convert string to float''
                           | Some n \<Rightarrow> Inr (real n)),
      to_numeric = (\<lambda>s. map_option real (parse_nat s))\<rparr>"

text \<open>
  A store where no operation fails and one whose commit fails, a connection with no open
  transaction, the empty cache, a snapshot, a file system with one file, and a clock.
\<close>

definition no_faults :: faults where
  "no_faults op = None"

definition commit_fault :: faults where
  "commit_fault op = (if op = Commit then Some ''disk I/O error'' else None)"

definition clean :: "db \<Rightarrow> connection" where
  "clean d = \<lparr>committed = d, working = d\<rparr>"

definition empty_db :: db where
  "empty_db = \<lparr>lignes_factures = [], sync_info = []\<rparr>"

definition snap1 :: sync_row where
  "snap1 =
     \<lparr>fichier_path = ''f.xlsx'', last_modified = 5, file_size = 10, file_hash = ''h1'',
      last_sync = 6, nb_lignes = 3, sync_status = ''success'', sync_message = (3, 0, 0)\<rparr>"

definition fs1 :: filesystem where
  "fs1 = map_of [(''f.xlsx'', \<lparr>st_size = 10, st_mtime = 5, digest = Some ''h1''\<rparr>)]"

definition clock0 :: clock where
  "clock0 = \<lparr>t_start = 0, t_mtime = 0, t_sync = 0, t_end = 1\<rparr>"

text \<open>
  Incoming rows of one text cell (with the stand-in digest the hash of such a row is its
  text) and the stored row they give; a row of the analyzer's frame with every cell
  missing, for contract M1.
\<close>

definition row_of :: "string \<Rightarrow> series" where
  "row_of s = [(''libelle'', Str s)]"

definition ligne_of :: "string \<Rightarrow> ligne" where
  "ligne_of s =
     \<lparr>hash_ligne = s, l_marche = None, l_fournisseur = None, l_libelle = Some s,
      l_date_sf = None, l_num_facture = None, l_montant_initial = 0, l_montant_sf = 0,
      l_montant_ttc = 0, l_num_mandat = None, l_tranche = None, l_commande = None\<rparr>"

definition blank_row :: excel_row where
  "blank_row =
     \<lparr>col_montant_initial = NaN, col_montant_ttc = NaN, col_montant_sf = NaN,
      col_date_sf = NaN, col_commande = NaN, col_marche = ''M1'', col_tranche = NaN,
      col_mandat = NaN, col_fournisseur = NaN, col_libelle = NaN, col_facture = NaN\<rparr>"

text \<open>Two override stores.\<close>

definition db1 :: database where
  "db1 =
     \<lparr>marches = [\<lparr>m_code_marche = ''M1'', type_marche = Some ''CLASSIQUE'',
                   montant_initial_manuel = None\<rparr>],
      avenants = [],
      tranches = [\<lparr>t_code_marche = ''M1'', code_tranche = ''TO1'', t_montant = Some 100,
                    ordre = Some 1\<rparr>]\<rparr>"

definition db2 :: database where
  "db2 =
     \<lparr>marches = [\<lparr>m_code_marche = ''M1'', type_marche = Some ''BDC'',
                   montant_initial_manuel = Some 1000\<rparr>],
      avenants = [\<lparr>a_code_marche = ''M1'', numero_avenant = Some 1, a_montant = Some 200,
                    type_modification = Some ''Augmentation''\<rparr>,
                  \<lparr>a_code_marche = ''M1'', numero_avenant = Some 2, a_montant = Some 50,
                    type_modification = Some ''Diminution''\<rparr>],
      tranches = [\<lparr>t_code_marche = ''M1'', code_tranche = ''TO1'', t_montant = Some 100,
                    ordre = Some 1\<rparr>]\<rparr>"

text \<open>An incoming row whose \<^verbatim>\<open>montant_initial\<close> cell is a text that is no number.\<close>

definition bad_row :: series where
  "bad_row = [(''libelle'', Str ''x''), (''montant_initial'', Str ''abc'')]"

section \<open>Properties of file\_needs\_sync\<close>

text \<open>
  C1 (as stated, refuted). The claim says that a file whose content hash differs from
  the last snapshot's is reported as needing a synchronisation even when the size
  matches. Here the file has the recorded size (10) and the recorded modification time
  (5) but another digest, the snapshot records 3 rows, and \<open>file_needs_sync\<close> answers
  that the file is unchanged: the hash is never computed.
\<close>

theorem file_needs_sync_hash_ignored_counterexample:
  "calculate_file_hash
       (map_of [(''f.xlsx'', \<lparr>st_size = 10, st_mtime = 5, digest = Some ''h2''\<rparr>)]) ''f.xlsx''
     \<noteq> file_hash snap1
   \<and> st_size \<lparr>st_size = 10, st_mtime = 5, digest = Some ''h2''\<rparr> = file_size snap1
   \<and> file_needs_sync no_faults
        (map_of [(''f.xlsx'', \<lparr>st_size = 10, st_mtime = 5, digest = Some ''h2''\<rparr>)])
        (clean \<lparr>lignes_factures = [], sync_info = [snap1]\<rparr>) ''f.xlsx''
      = Inr (False, Inchange)"
  by (simp add: file_needs_sync_def no_faults_def clean_def snap1_def last_snapshot_def
        calculate_file_hash_def)

text \<open>
  C1 (amended). For a file that exists and has a latest snapshot \<open>s\<close>, with the query
  succeeding: \<open>file_needs_sync\<close> answers "unchanged" exactly when the size matches, the
  recorded row count is not zero, and either the modification time is within one second
  of the recorded one or the content hash matches. In particular a differing hash with
  matching size gives "content changed" once the modification time has moved by more
  than one second.
\<close>

theorem file_needs_sync_unchanged_iff:
  assumes "fs filepath = Some f" and "F SelectSyncInfo = None"
    and "last_snapshot (sync_info (working conn)) filepath = Some s"
  shows "(\<exists>r. file_needs_sync F fs conn filepath
            = Inr (\<not> (st_size f = file_size s \<and> nb_lignes s \<noteq> 0 \<and>
                       (\<bar>st_mtime f - last_modified s\<bar> \<le> 1
                        \<or> calculate_file_hash fs filepath = file_hash s)), r))
       \<and> (st_size f = file_size s \<and> nb_lignes s \<noteq> 0
            \<and> \<bar>st_mtime f - last_modified s\<bar> > 1
            \<and> calculate_file_hash fs filepath \<noteq> file_hash s
          \<longrightarrow> file_needs_sync F fs conn filepath = Inr (True, ContenuModifie))"
  using assms by (simp add: file_needs_sync_def)

theorem file_needs_sync_unchanged_iff_witness:
  "file_needs_sync no_faults
     (map_of [(''f.xlsx'', \<lparr>st_size = 10, st_mtime = 8, digest = Some ''h2''\<rparr>)])
     (clean \<lparr>lignes_factures = [], sync_info = [snap1]\<rparr>) ''f.xlsx''
   = Inr (True, ContenuModifie)"
  using file_needs_sync_unchanged_iff
    [of "map_of [(''f.xlsx'', \<lparr>st_size = 10, st_mtime = 8, digest = Some ''h2''\<rparr>)]"
        "''f.xlsx''" "\<lparr>st_size = 10, st_mtime = 8, digest = Some ''h2''\<rparr>"
        no_faults "clean \<lparr>lignes_factures = [], sync_info = [snap1]\<rparr>" snap1]
  by (simp add: no_faults_def clean_def snap1_def last_snapshot_def calculate_file_hash_def)

section \<open>Properties of the analyzer\<close>

subsection \<open>extract\_operation\<close>

lemma rfind_from_append:
  "rfind_from c (xs @ ys) i f = rfind_from c ys (i + int (length xs)) (rfind_from c xs i f)"
  by (induction xs arbitrary: i f) (simp_all add: algebra_simps)

lemma rfind_from_absent: "c \<notin> set ys \<Longrightarrow> rfind_from c ys i f = f"
  by (induction ys arbitrary: i f) auto

lemma rfind_from_less: "f < i \<Longrightarrow> rfind_from c xs i f < i + int (length xs)"
proof (induction xs arbitrary: i f)
  case Nil then show ?case by simp
next
  case (Cons x xs)
  have "rfind_from c xs (i + 1) (if x = c then i else f) < (i + 1) + int (length xs)"
    by (rule Cons.IH) (use Cons.prems in auto)
  then show ?case by simp
qed

lemma rfind_last:
  assumes "c \<notin> set suf"
  shows "rfind (p @ [c] @ suf) c = int (length p)"
  using assms by (simp add: rfind_def rfind_from_append rfind_from_absent)

lemma rfind_other:
  assumes "d \<notin> set suf" "d \<noteq> c"
  shows "rfind (p @ [c] @ suf) d < int (length p)"
proof -
  have "rfind (p @ [c] @ suf) d = rfind_from d p 0 (- 1)"
    using assms by (simp add: rfind_def rfind_from_append rfind_from_absent)
  moreover have "rfind_from d p 0 (- 1) < 0 + int (length p)"
    by (rule rfind_from_less) simp
  ultimately show ?thesis by simp
qed

lemma last_sep_split:
  assumes "is_sep c" "\<forall>x \<in> set suf. \<not> is_sep x"
  shows "max (rfind (p @ [c] @ suf) (CHR ''_'')) (rfind (p @ [c] @ suf) (CHR ''-'')) = int (length p)"
proof -
  have u: "CHR ''_'' \<notin> set suf" and d: "CHR ''-'' \<notin> set suf"
    using assms(2) by (auto simp: is_sep_def)
  show ?thesis
  proof (cases "c = CHR ''_''")
    case True
    have a: "rfind (p @ [c] @ suf) (CHR ''_'') = int (length p)"
      using rfind_last[OF u, of p] True by simp
    have b: "rfind (p @ [c] @ suf) (CHR ''-'') < int (length p)"
      using rfind_other[OF d, of c p] True by simp
    show ?thesis using a b by simp
  next
    case False
    then have c: "c = CHR ''-''" using assms(1) by (simp add: is_sep_def)
    have a: "rfind (p @ [c] @ suf) (CHR ''-'') = int (length p)"
      using rfind_last[OF d, of p] c by simp
    have b: "rfind (p @ [c] @ suf) (CHR ''_'') < int (length p)"
      using rfind_other[OF u, of c p] c by simp
    show ?thesis using a b by simp
  qed
qed

lemma nb_separators_suffix:
  assumes "\<forall>x \<in> set suf. \<not> is_sep x"
  shows "nb_separators suf = 0"
  using assms by (auto simp: nb_separators_def is_sep_def count_list_0_iff)

lemma count_list_append': "count_list (xs @ ys) c = count_list xs c + count_list ys c"
  by (induction xs) auto

lemma prefix_nonempty:
  assumes "is_sep c" "\<forall>x \<in> set suf. \<not> is_sep x" "2 \<le> nb_separators (p @ [c] @ suf)"
  shows "p \<noteq> []"
proof
  assume "p = []"
  then have "nb_separators (p @ [c] @ suf) = nb_separators [c] + nb_separators suf"
    by (simp add: nb_separators_def count_list_append')
  also have "\<dots> \<le> 1" using nb_separators_suffix[OF assms(2)] assms(1)
    by (auto simp: nb_separators_def is_sep_def)
  finally show False using assms(3) by simp
qed

lemma extract_operation_norm:
  "marche \<noteq> [] \<Longrightarrow> extract_operation marche =
     (if nb_separators (strip marche) < 2 then strip marche
      else (let last_sep = max (rfind (strip marche) (CHR ''_'')) (rfind (strip marche) (CHR ''-''));
                suffix = drop (nat (last_sep + 1)) (strip marche)
            in if last_sep > 0 \<and> isdigit suffix \<and> length suffix \<le> 2
               then take (nat last_sep) (strip marche) else strip marche))"
  by (simp add: extract_operation_def nb_separators_def Let_def)

text \<open>
  C6 (as stated, refuted). The claim says that a code with fewer than two separators is
  returned as it is. The code with a leading blank has no separator, and the function
  returns it without the blank: the function works on the stripped code.
\<close>

theorem extract_operation_strips_counterexample:
  "nb_separators '' A'' < 2 \<and> extract_operation '' A'' = ''A''
   \<and> extract_operation '' A'' \<noteq> '' A''"
  by (simp add: extract_operation_def strip_def is_space_def nb_separators_def Let_def)

text \<open>
  C6 (amended). The empty code gives the empty text. Otherwise the rule applies to the
  code with surrounding white space removed: with fewer than two separators the result
  is the stripped code; with two or more, where the stripped code is \<open>p @ [c] @ suf\<close>
  with \<open>c\<close> its last separator, the result is \<open>p\<close> when \<open>suf\<close> is one or two
  digits and the stripped code otherwise. The three examples of the specification hold.
\<close>

theorem extract_operation_rule:
  "extract_operation [] = []
   \<and> (marche \<noteq> [] \<and> nb_separators (strip marche) < 2
        \<longrightarrow> extract_operation marche = strip marche)
   \<and> (marche \<noteq> [] \<and> 2 \<le> nb_separators (strip marche)
        \<and> strip marche = p @ [c] @ suf \<and> is_sep c \<and> (\<forall>x \<in> set suf. \<not> is_sep x)
        \<longrightarrow> extract_operation marche
              = (if isdigit suf \<and> length suf \<le> 2 then p else strip marche))
   \<and> extract_operation ''2024_17_1'' = ''2024_17''
   \<and> extract_operation ''2024_1_3'' = ''2024_1''
   \<and> extract_operation ''2025_12'' = ''2025_12''"
proof (intro conjI impI)
  show "extract_operation [] = []" by (simp add: extract_operation_def)
next
  assume "marche \<noteq> [] \<and> nb_separators (strip marche) < 2"
  then show "extract_operation marche = strip marche"
    by (simp add: extract_operation_def nb_separators_def Let_def)
next
  assume a: "marche \<noteq> [] \<and> 2 \<le> nb_separators (strip marche)
        \<and> strip marche = p @ [c] @ suf \<and> is_sep c \<and> (\<forall>x \<in> set suf. \<not> is_sep x)"
  then have n: "strip marche = p @ [c] @ suf" by simp
  have m: "max (rfind (strip marche) (CHR ''_'')) (rfind (strip marche) (CHR ''-'')) = int (length p)"
    unfolding n using a by (intro last_sep_split) auto
  have pne: "0 < int (length p)" using a prefix_nonempty[of c suf p] by (simp add: n)
  from a have ge: "2 \<le> nb_separators (strip marche)" by blast
  have two: "\<not> nb_separators (strip marche) < 2" using ge by linarith
  from a have mne: "marche \<noteq> []" by blast
  have dr: "drop (nat (int (length p) + 1)) (strip marche) = suf"
    by (simp add: n nat_add_distrib)
  have tk: "take (nat (int (length p))) (strip marche) = p"
    by (simp add: n)
  have "extract_operation marche =
     (if int (length p) > 0 \<and> isdigit suf \<and> length suf \<le> 2 then p else strip marche)"
    using two by (simp only: extract_operation_norm[OF mne] Let_def m dr tk if_False)
  then show "extract_operation marche = (if isdigit suf \<and> length suf \<le> 2 then p else strip marche)"
    using pne by simp
next
  show "extract_operation ''2024_17_1'' = ''2024_17''"
    by (simp add: extract_operation_def strip_def is_space_def rfind_def isdigit_def is_digit_def Let_def)
  show "extract_operation ''2024_1_3'' = ''2024_1''"
    by (simp add: extract_operation_def strip_def is_space_def rfind_def isdigit_def is_digit_def Let_def)
  show "extract_operation ''2025_12'' = ''2025_12''"
    by (simp add: extract_operation_def strip_def is_space_def rfind_def isdigit_def is_digit_def Let_def)
qed

theorem extract_operation_rule_witness:
  "extract_operation '' 2024_17_1 '' = ''2024_17''
   \<and> extract_operation ''2020-14_G3P'' = ''2020-14_G3P''
   \<and> extract_operation ''A_7 '' = ''A_7''"
  using extract_operation_rule[of "'' 2024_17_1 ''" "''2024_17''" "CHR ''_''" "''1''"]
    extract_operation_rule[of "''2020-14_G3P''" "''2020-14''" "CHR ''_''" "''G3P''"]
    extract_operation_rule[of "''A_7 ''" "[]" "CHR ''_''" "[]"]
  by (simp add: strip_def is_space_def nb_separators_def is_sep_def isdigit_def is_digit_def)

subsection \<open>calculate\_paye\_tranche and calculate\_montant\_initial\_tranche\<close>

lemma sum_list_filter_if:
  "sum_list (map f (filter P xs)) = sum_list (map (\<lambda>x. if P x then f x else (0::real)) xs)"
  by (induction xs) auto

lemma if_nil_sum_list:
  "(if xs = [] then 0 else sum_list (map f xs)) = (sum_list (map f xs) :: real)"
  by simp

lemma parse_nat_100: "parse_nat ''100'' = Some 100"
  by (simp add: parse_nat_def isdigit_def is_digit_def)

lemma parse_nat_abc: "parse_nat ''abc'' = None"
  by (simp add: parse_nat_def isdigit_def is_digit_def)

lemma tranche_matches_refl: "tranche_matches t t"
  by (cases t) (simp_all add: tranche_matches_def)

text \<open>
  C5. \<open>calculate_paye_tranche\<close> is the sum of the TTC amounts (coerced to numbers) over
  exactly the rows of the contract and tranche whose mandate cell is present and not the
  empty text. Appended to any frame, a matching row with TTC amount 500 adds nothing when
  its mandate is empty or missing and adds 500 when its mandate is filled in.
\<close>

theorem calculate_paye_tranche_sum:
  "calculate_paye_tranche B df marche tranche
     = sum_list (map (\<lambda>r. if col_marche r = marche \<and> tranche_matches tranche (col_tranche r)
                              \<and> notna (col_mandat r) \<and> col_mandat r \<noteq> Str []
                           then coerce B (col_montant_ttc r) else 0) df)
   \<and> calculate_paye_tranche B
        (df @ [row\<lparr>col_marche := marche, col_tranche := tranche,
                   col_montant_ttc := Num 500, col_mandat := Str []\<rparr>]) marche tranche
       = calculate_paye_tranche B df marche tranche
   \<and> calculate_paye_tranche B
        (df @ [row\<lparr>col_marche := marche, col_tranche := tranche,
                   col_montant_ttc := Num 500, col_mandat := NaN\<rparr>]) marche tranche
       = calculate_paye_tranche B df marche tranche
   \<and> calculate_paye_tranche B
        (df @ [row\<lparr>col_marche := marche, col_tranche := tranche,
                   col_montant_ttc := Num 500, col_mandat := Str ''M7''\<rparr>]) marche tranche
       = calculate_paye_tranche B df marche tranche + 500"
proof -
  have g: "calculate_paye_tranche B xs marche tranche
     = sum_list (map (\<lambda>r. if col_marche r = marche \<and> tranche_matches tranche (col_tranche r)
                              \<and> notna (col_mandat r) \<and> col_mandat r \<noteq> Str []
                           then coerce B (col_montant_ttc r) else 0) xs)" for xs
  proof -
    have "calculate_paye_tranche B xs marche tranche
       = sum_list (map (\<lambda>r. coerce B (col_montant_ttc r))
           (filter (\<lambda>r. mandat_renseigne (col_mandat r)) (rows_of_tranche xs marche tranche)))"
      unfolding calculate_paye_tranche_def Let_def by (rule if_nil_sum_list)
    also have "\<dots> = sum_list (map (\<lambda>r. if col_marche r = marche
                              \<and> tranche_matches tranche (col_tranche r)
                              \<and> notna (col_mandat r) \<and> col_mandat r \<noteq> Str []
                           then coerce B (col_montant_ttc r) else 0) xs)"
      unfolding rows_of_tranche_def mandat_renseigne_def by (induction xs) auto
    finally show ?thesis .
  qed
  show ?thesis
    unfolding g by (simp add: tranche_matches_refl coerce_def)
qed

lemma set_unique: "set (unique xs) = set xs"
  by (simp add: unique_def)

lemma distinct_unique: "distinct (unique xs)"
  by (simp add: unique_def)

lemma sum_list_unique: "sum_list (unique xs) = (\<Sum>x\<in>set xs. (x::real))"
  using sum_list_distinct_conv_sum_set[of "unique xs" "\<lambda>x. x"]
  by (simp add: set_unique distinct_unique)

text \<open>
  C3 (as stated, refuted). The claim says that only non-positive values are discarded.
  A single matching row with the positive initial amount 1/200 gives 0, where the rule of
  the claim gives 1/200: the code keeps only the values above 0.01.
\<close>

theorem calculate_montant_initial_tranche_threshold_counterexample:
  "calculate_montant_initial_tranche stub_builtins None
     [blank_row\<lparr>col_montant_initial := Num (1 / 200)\<rparr>] ''M1'' NaN = 0
   \<and> spec_tranche_initial_amount stub_builtins
     [blank_row\<lparr>col_montant_initial := Num (1 / 200)\<rparr>] ''M1'' NaN = 1 / 200"
  by (simp add: calculate_montant_initial_tranche_def override_amount_def rows_of_tranche_def
        spec_tranche_initial_amount_def blank_row_def tranche_matches_def coerce_def unique_def Let_def)

text \<open>
  C3 (amended). When no override applies, \<open>calculate_montant_initial_tranche\<close> is the
  sum of the distinct values above 0.01 among the initial amounts of the matching rows,
  each coerced to a number (invalid or missing gives 0). The amounts
  100, 100, 100, 0, 50 give 150.
\<close>

theorem calculate_montant_initial_tranche_rows:
  "(override_amount B dbo marche tranche = None \<longrightarrow>
      calculate_montant_initial_tranche B dbo df marche tranche
        = (\<Sum>x\<in>{v \<in> (\<lambda>r. coerce B (col_montant_initial r)) ` set (rows_of_tranche df marche tranche).
                  v > 1 / 100}. x))
   \<and> calculate_montant_initial_tranche B None
        (map (\<lambda>c. row\<lparr>col_marche := marche, col_tranche := tranche, col_montant_initial := c\<rparr>)
           [Num 100, Num 100, Num 100, Num 0, Num 50]) marche tranche = 150"
proof (intro conjI impI)
  assume a: "override_amount B dbo marche tranche = None"
  show "calculate_montant_initial_tranche B dbo df marche tranche
        = (\<Sum>x\<in>{v \<in> (\<lambda>r. coerce B (col_montant_initial r)) ` set (rows_of_tranche df marche tranche).
                  v > 1 / 100}. x)"
  proof (cases "rows_of_tranche df marche tranche = []")
    case True
    then show ?thesis by (simp add: calculate_montant_initial_tranche_def a)
  next
    case False
    have s: "set (filter (\<lambda>x. x > 1 / 100)
                (map (\<lambda>r. coerce B (col_montant_initial r)) (rows_of_tranche df marche tranche)))
          = {v \<in> (\<lambda>r. coerce B (col_montant_initial r)) ` set (rows_of_tranche df marche tranche).
                  v > 1 / 100}"
      by auto
    show ?thesis
      using False by (simp add: calculate_montant_initial_tranche_def a sum_list_unique s Let_def)
  qed
next
  show "calculate_montant_initial_tranche B None
        (map (\<lambda>c. row\<lparr>col_marche := marche, col_tranche := tranche, col_montant_initial := c\<rparr>)
           [Num 100, Num 100, Num 100, Num 0, Num 50]) marche tranche = 150"
    by (simp add: calculate_montant_initial_tranche_def override_amount_def rows_of_tranche_def
          tranche_matches_refl coerce_def unique_def Let_def)
qed

theorem calculate_montant_initial_tranche_rows_witness:
  "calculate_montant_initial_tranche stub_builtins None
     [blank_row\<lparr>col_montant_initial := Num 100\<rparr>, blank_row\<lparr>col_montant_initial := Str ''100''\<rparr>,
      blank_row\<lparr>col_montant_initial := Str ''abc''\<rparr>, blank_row\<lparr>col_montant_initial := Num 50\<rparr>]
     ''M1'' NaN = 150"
proof -
  let ?df = "[blank_row\<lparr>col_montant_initial := Num 100\<rparr>,
      blank_row\<lparr>col_montant_initial := Str ''100''\<rparr>,
      blank_row\<lparr>col_montant_initial := Str ''abc''\<rparr>, blank_row\<lparr>col_montant_initial := Num 50\<rparr>]"
  have o: "override_amount stub_builtins None ''M1'' NaN = None"
    by (simp add: override_amount_def)
  have s: "{v \<in> (\<lambda>r. coerce stub_builtins (col_montant_initial r))
                  ` set (rows_of_tranche ?df ''M1'' NaN). v > 1 / 100} = {100, 50}"
    by (auto simp add: rows_of_tranche_def blank_row_def tranche_matches_def
        coerce_def stub_builtins_def parse_nat_100 parse_nat_abc)
  show ?thesis
    using calculate_montant_initial_tranche_rows[of stub_builtins None "''M1''" NaN ?df blank_row] o
    unfolding s by simp
qed

subsection \<open>The contract total of get\_vision\_globale\<close>

lemma foldl_add: "foldl (\<lambda>acc a. acc + f a) z xs = z + sum_list (map f xs)" for z :: real
  by (induction xs arbitrary: z) (simp_all add: algebra_simps)

lemma sum_list_sort_key: "sum_list (map f (sort_key k xs)) = (sum_list (map f xs) :: real)"
proof -
  have "mset (map f (sort_key k xs)) = mset (map f xs)" by simp
  then show ?thesis by (metis sum_mset_sum_list)
qed

lemma sort_key_nil_iff: "sort_key k xs = [] \<longleftrightarrow> xs = []"
  by (metis length_0_conv length_sort)

lemma get_montant_total_marche_formula:
  assumes "get_marche d marche = Some m"
  shows "get_montant_total_marche d marche
      = or_zero (montant_initial_manuel m)
        + sum_list (map montant_avenant (filter (\<lambda>a. a_code_marche a = marche) (avenants d)))
        + (if classique m
           then sum_list (map (\<lambda>t. or_zero (t_montant t))
                  (filter (\<lambda>t. t_code_marche t = marche) (tranches d)))
           else 0)"
proof -
  have tm: "((case type_marche m of None \<Rightarrow> ''CLASSIQUE''
             | Some t \<Rightarrow> if t = [] then ''CLASSIQUE'' else t) = ''CLASSIQUE'') = classique m"
    by (auto simp: classique_def split: option.splits)
  show ?thesis
    unfolding get_montant_total_marche_def assms option.case Let_def tm
      get_avenants_def get_tranches_def foldl_add sum_list_sort_key sort_key_nil_iff
    by (cases "filter (\<lambda>t. t_code_marche t = marche) (tranches d) = []") simp_all
qed

text \<open>
  C4 (as stated, refuted). The claim takes the total from the override store only when
  a positive manual amount exists. Contract M1 is CLASSIC with no manual amount and one
  optional tranche of 100 in the store; its only row has no tranche and the initial
  amount 70. The code returns 100, the total of the store; the rule of the claim falls
  back to the rows and gives 70.
\<close>

theorem montant_marche_gate_counterexample:
  "get_marche db1 ''M1''
     = Some \<lparr>m_code_marche = ''M1'', type_marche = Some ''CLASSIQUE'', montant_initial_manuel = None\<rparr>
   \<and> fst (montant_marche stub_builtins (Some db1)
            [blank_row\<lparr>col_montant_initial := Num 70\<rparr>] ''M1'') = 100
   \<and> spec_montant_initial_marche stub_builtins db1
            [blank_row\<lparr>col_montant_initial := Num 70\<rparr>] ''M1'' = 70"
  by (simp add: montant_marche_def spec_montant_initial_marche_def somme_tranches_excel_def
        get_montant_total_marche_def get_marche_def get_tranches_def get_avenants_def db1_def
        blank_row_def or_zero_def unique_def calculate_montant_initial_tranche_def
        override_amount_def montant_tranche_db_def truthy_def rows_of_tranche_def
        tranche_matches_def coerce_def Let_def)

text \<open>
  C4 (amended). With an override store, the contract total of \<open>get_vision_globale\<close> is
  the total resolved by the store when that total is positive, and otherwise (as without
  a store) the sum of \<open>calculate_montant_initial_tranche\<close> over the distinct tranches of
  the contract's rows. The total resolved by the store is 0 for an unknown contract and
  otherwise the manual base amount (0 when absent), plus the signed amendment amounts
  (plus for an increase, minus for a decrease), plus, for CLASSIC contracts only, the
  tranche amounts of the store.
\<close>

theorem montant_marche_rule:
  "fst (montant_marche B (Some d) df marche)
     = (if get_montant_total_marche d marche > 0 then get_montant_total_marche d marche
        else somme_tranches_excel B (Some d) df marche)
   \<and> fst (montant_marche B None df marche) = somme_tranches_excel B None df marche
   \<and> (get_marche d marche = None \<longrightarrow> get_montant_total_marche d marche = 0)
   \<and> (get_marche d marche = Some m \<longrightarrow>
        get_montant_total_marche d marche
          = or_zero (montant_initial_manuel m)
            + sum_list (map montant_avenant
                (filter (\<lambda>a. a_code_marche a = marche) (avenants d)))
            + (if classique m
               then sum_list (map (\<lambda>t. or_zero (t_montant t))
                      (filter (\<lambda>t. t_code_marche t = marche) (tranches d)))
               else 0))
   \<and> (type_modification a = Some ''Augmentation'' \<longrightarrow> montant_avenant a = or_zero (a_montant a))
   \<and> (type_modification a = Some ''Diminution'' \<longrightarrow> montant_avenant a = - or_zero (a_montant a))
   \<and> (\<forall>v \<in> set (get_vision_globale B dbo df).
         v_montant_initial_marche v = fst (montant_marche B dbo df (v_marche v)))"
proof (intro conjI impI ballI)
  show "fst (montant_marche B (Some d) df marche)
     = (if get_montant_total_marche d marche > 0 then get_montant_total_marche d marche
        else somme_tranches_excel B (Some d) df marche)"
    by (auto simp: montant_marche_def somme_tranches_excel_def Let_def)
  show "fst (montant_marche B None df marche) = somme_tranches_excel B None df marche"
    by (simp add: montant_marche_def somme_tranches_excel_def Let_def)
  show "get_montant_total_marche d marche = 0" if "get_marche d marche = None"
    using that by (simp add: get_montant_total_marche_def)
  show "get_montant_total_marche d marche
          = or_zero (montant_initial_manuel m)
            + sum_list (map montant_avenant
                (filter (\<lambda>a. a_code_marche a = marche) (avenants d)))
            + (if classique m
               then sum_list (map (\<lambda>t. or_zero (t_montant t))
                      (filter (\<lambda>t. t_code_marche t = marche) (tranches d)))
               else 0)" if "get_marche d marche = Some m"
    using that by (rule get_montant_total_marche_formula)
  show "montant_avenant a = or_zero (a_montant a)" if "type_modification a = Some ''Augmentation''"
    using that by (simp add: montant_avenant_def)
  show "montant_avenant a = - or_zero (a_montant a)" if "type_modification a = Some ''Diminution''"
    using that by (simp add: montant_avenant_def)
  show "v_montant_initial_marche v = fst (montant_marche B dbo df (v_marche v))"
    if "v \<in> set (get_vision_globale B dbo df)" for v
  proof -
    from that obtain m where "v = vision_of_marche B dbo df m"
      by (auto simp: get_vision_globale_def)
    then show ?thesis
      by (simp add: vision_of_marche_def Let_def split: prod.splits)
  qed
qed

theorem montant_marche_rule_witness:
  "get_montant_total_marche db2 ''M1'' = 1150
   \<and> fst (montant_marche stub_builtins (Some db2) [blank_row\<lparr>col_montant_initial := Num 70\<rparr>] ''M1'') = 1150
   \<and> map v_montant_initial_marche
       (get_vision_globale stub_builtins (Some db2) [blank_row\<lparr>col_montant_initial := Num 70\<rparr>]) = [1150]"
proof -
  let ?m = "\<lparr>m_code_marche = ''M1'', type_marche = Some ''BDC'', montant_initial_manuel = Some 1000\<rparr>"
  let ?a1 = "\<lparr>a_code_marche = ''M1'', numero_avenant = Some 1, a_montant = Some 200,
                    type_modification = Some ''Augmentation''\<rparr>"
  let ?a2 = "\<lparr>a_code_marche = ''M1'', numero_avenant = Some 2, a_montant = Some 50,
                    type_modification = Some ''Diminution''\<rparr>"
  let ?df = "[blank_row\<lparr>col_montant_initial := Num 70\<rparr>]"
  have g: "get_marche db2 ''M1'' = Some ?m" by (simp add: get_marche_def db2_def)
  note r1 = montant_marche_rule[of stub_builtins db2 ?df "''M1''" ?m ?a1 "Some db2"]
  note r2 = montant_marche_rule[of stub_builtins db2 ?df "''M1''" ?m ?a2 "Some db2"]
  have a1: "montant_avenant ?a1 = 200" using r1 by (simp add: or_zero_def)
  have a2: "montant_avenant ?a2 = - 50" using r2 by (simp add: or_zero_def)
  have t: "get_montant_total_marche db2 ''M1'' = 1150"
    using r1 g a1 a2 by (simp add: db2_def or_zero_def classique_def)
  have f: "fst (montant_marche stub_builtins (Some db2) ?df ''M1'') = 1150"
    using r1 t by simp
  have v: "map v_marche (get_vision_globale stub_builtins (Some db2) ?df) = [''M1'']"
    by (simp add: get_vision_globale_def unique_def blank_row_def vision_of_marche_def Let_def
          split: prod.splits)
  have "map v_montant_initial_marche (get_vision_globale stub_builtins (Some db2) ?df)
        = map (\<lambda>v. fst (montant_marche stub_builtins (Some db2) ?df (v_marche v)))
            (get_vision_globale stub_builtins (Some db2) ?df)"
    using r1 by (intro map_cong) auto
  also have "\<dots> = map (\<lambda>m. fst (montant_marche stub_builtins (Some db2) ?df m))
            (map v_marche (get_vision_globale stub_builtins (Some db2) ?df))"
    by (simp add: comp_def)
  also have "\<dots> = [1150]" unfolding v using f by simp
  finally show ?thesis using t f by simp
qed

subsection \<open>get\_historique\_factures\<close>

lemma sort_reverse_mset: "mset (sort_reverse k xs) = mset xs"
  by (simp add: sort_reverse_def)

lemma sort_reverse_sorted: "sorted_wrt (\<lambda>a b. k a \<ge> k b) (sort_reverse k xs)"
proof -
  have "sorted (map k (sort_key k (rev xs)))" by (rule sorted_sort_key)
  then have "sorted_wrt (\<lambda>a b. k a \<le> k b) (sort_key k (rev xs))"
    by (simp add: sorted_map)
  then show ?thesis
    unfolding sort_reverse_def by (simp add: sorted_wrt_rev)
qed

lemma get_historique_factures_eq:
  "get_historique_factures B df marche
     = sort_reverse (\<lambda>h. (h_marche h, h_date_sf h)) (map (historique_of_row B) (selected_rows df marche))"
  by (simp add: get_historique_factures_def selected_rows_def Let_def)

lemma historique_blank_row: "historique_of_row stub_builtins (blank_row\<lparr>col_marche := m\<rparr>)
   = \<lparr>h_marche = m, h_fournisseur = [], h_date_sf = [], h_num_facture = [], h_libelle = [],
      h_montant_sf = 0, h_montant_ttc = 0, h_num_mandat = [], h_statut = EnAttente\<rparr>"
  by (simp add: historique_of_row_def blank_row_def str_or_empty_def float_or_zero_def Let_def)

text \<open>
  C9 (as stated, refuted). The claim has the history sorted by contract code ascending.
  For two rows of contracts A and B the history lists B before A: the sort is reversed
  as a whole, contract code included.
\<close>

theorem get_historique_factures_descending_counterexample:
  "map h_marche (get_historique_factures stub_builtins
      [blank_row\<lparr>col_marche := ''A''\<rparr>, blank_row\<lparr>col_marche := ''B''\<rparr>] None) = [''B'', ''A'']
   \<and> \<not> sorted [''B'', ''A'']"
  by (simp add: get_historique_factures_def sort_reverse_def historique_blank_row less_eq_prod_def)

text \<open>
  C9 (amended). \<open>get_historique_factures\<close> returns one row per row of the frame
  (restricted to the given contract when one is supplied), sorted in descending order of
  the pair (contract code, date text): contract codes descend and, within a contract,
  the date texts descend in the order of strings.
\<close>

theorem get_historique_factures_order:
  "mset (get_historique_factures B df marche)
     = mset (map (historique_of_row B) (selected_rows df marche))
   \<and> length (get_historique_factures B df marche) = length (selected_rows df marche)
   \<and> sorted_wrt (\<lambda>a b. (h_marche a, h_date_sf a) \<ge> (h_marche b, h_date_sf b))
        (get_historique_factures B df marche)
   \<and> sorted_wrt (\<lambda>a b. h_marche a \<ge> h_marche b) (get_historique_factures B df marche)
   \<and> sorted_wrt (\<lambda>a b. h_marche a = h_marche b \<longrightarrow> h_date_sf a \<ge> h_date_sf b)
        (get_historique_factures B df marche)"
proof -
  let ?r = "get_historique_factures B df marche"
  have m: "mset ?r = mset (map (historique_of_row B) (selected_rows df marche))"
    by (simp add: get_historique_factures_eq sort_reverse_mset)
  have l: "length ?r = length (selected_rows df marche)"
    using m by (metis length_map size_mset)
  have s: "sorted_wrt (\<lambda>a b. (h_marche a, h_date_sf a) \<ge> (h_marche b, h_date_sf b)) ?r"
    unfolding get_historique_factures_eq by (rule sort_reverse_sorted)
  have s1: "sorted_wrt (\<lambda>a b. h_marche a \<ge> h_marche b) ?r"
    by (rule sorted_wrt_mono_rel[OF _ s]) (auto simp: less_eq_prod_def)
  have s2: "sorted_wrt (\<lambda>a b. h_marche a = h_marche b \<longrightarrow> h_date_sf a \<ge> h_date_sf b) ?r"
    by (rule sorted_wrt_mono_rel[OF _ s]) (auto simp: less_eq_prod_def)
  show ?thesis using m l s s1 s2 by blast
qed

lemma historique_dated_row: "historique_of_row stub_builtins (blank_row\<lparr>col_marche := m, col_date_sf := Str d\<rparr>)
   = \<lparr>h_marche = m, h_fournisseur = [], h_date_sf = d, h_num_facture = [], h_libelle = [],
      h_montant_sf = 0, h_montant_ttc = 0, h_num_mandat = [], h_statut = EnAttente\<rparr>"
  by (simp add: historique_of_row_def blank_row_def str_or_empty_def float_or_zero_def Let_def)

lemma selected_rows_example: "selected_rows
      [blank_row\<lparr>col_marche := ''A'', col_date_sf := Str ''2024-01-05''\<rparr>,
       blank_row\<lparr>col_marche := ''B'', col_date_sf := Str ''2024-02-01''\<rparr>,
       blank_row\<lparr>col_marche := ''A'', col_date_sf := Str ''2024-03-09''\<rparr>] (Some ''A'')
   = [blank_row\<lparr>col_marche := ''A'', col_date_sf := Str ''2024-01-05''\<rparr>,
       blank_row\<lparr>col_marche := ''A'', col_date_sf := Str ''2024-03-09''\<rparr>]"
  by (simp add: selected_rows_def)

lemma sorted_example_keys: "sorted [(''A'', ''2024-01-05''), (''A'', ''2024-03-09'')]"
    by (simp add: less_eq_prod_def)


theorem get_historique_factures_order_witness:
  "map (\<lambda>h. (h_marche h, h_date_sf h)) (get_historique_factures stub_builtins
      [blank_row\<lparr>col_marche := ''A'', col_date_sf := Str ''2024-01-05''\<rparr>,
       blank_row\<lparr>col_marche := ''B'', col_date_sf := Str ''2024-02-01''\<rparr>,
       blank_row\<lparr>col_marche := ''A'', col_date_sf := Str ''2024-03-09''\<rparr>] (Some ''A''))
    = [(''A'', ''2024-03-09''), (''A'', ''2024-01-05'')]"
proof -
  let ?df = "[blank_row\<lparr>col_marche := ''A'', col_date_sf := Str ''2024-01-05''\<rparr>,
       blank_row\<lparr>col_marche := ''B'', col_date_sf := Str ''2024-02-01''\<rparr>,
       blank_row\<lparr>col_marche := ''A'', col_date_sf := Str ''2024-03-09''\<rparr>]"
  let ?r = "get_historique_factures stub_builtins ?df (Some ''A'')"
  let ?k = "\<lambda>h. (h_marche h, h_date_sf h)"
  let ?t = "[(''A'', ''2024-01-05''), (''A'', ''2024-03-09'')]"
  note t = get_historique_factures_order[of stub_builtins ?df "Some ''A''"]
  have t1: "mset ?r = mset (map (historique_of_row stub_builtins) (selected_rows ?df (Some ''A'')))"
    using t by (rule conjunct1)
  have t3: "sorted_wrt (\<lambda>a b. (h_marche a, h_date_sf a) \<ge> (h_marche b, h_date_sf b)) ?r"
    using t by (elim conjE)
  have "mset (map ?k ?r) = image_mset ?k (mset ?r)" by simp
  also have "\<dots> = mset ?t" unfolding t1 selected_rows_example by (simp add: historique_dated_row)
  finally have b: "mset (rev (map ?k ?r)) = mset ?t" by simp
  have a: "sorted (rev (map ?k ?r))"
    unfolding sorted_wrt_rev sorted_wrt_map by (rule t3)
  have "sort ?t = rev (map ?k ?r)" by (rule properties_for_sort[OF b a])
  moreover have "sort ?t = ?t" by (rule properties_for_sort[OF refl sorted_example_keys])
  ultimately have "rev (map ?k ?r) = ?t" by (rule trans[OF sym])
  then have "rev (rev (map ?k ?r)) = rev ?t" by (rule arg_cong)
  then show ?thesis by (simp only: rev_rev_ident rev.simps append.simps)
qed

section \<open>Properties of sync\_from\_excel\<close>

lemma on_error_status [simp]: "status (fst (on_error clk c st e)) = ''error''"
  by (simp add: on_error_def)

lemma on_error_message [simp]: "message (fst (on_error clk c st e)) = Some (ErrorText e)"
  by (simp add: on_error_def)

lemma on_error_conn [simp]: "snd (on_error clk c st e) = rollback c"
  by (simp add: on_error_def)

lemma row_data_hash: "row_data B h row = Inr d \<Longrightarrow> hash_ligne d = h"
  by (auto simp: row_data_def split: sum.splits)

lemma iterrows_error:
  "iterrows B ex df acc = Inl (e, n) \<Longrightarrow>
     \<exists>row \<in> set df. row_data B (calculate_row_hash B row) row = Inl e"
proof (induction df arbitrary: acc)
  case Nil then show ?case by simp
next
  case (Cons row rows)
  obtain a b c where acc: "acc = (a, b, c)" by (cases acc)
  show ?case
    using Cons.prems Cons.IH unfolding acc
    by (auto simp: Let_def split: sum.splits if_splits)
qed

lemma iterrows_ok:
  "iterrows B ex df (n, new, ins) = Inr (n', new', ins') \<Longrightarrow>
     n' = n + length (filter (\<lambda>h. h \<in> set ex) (incoming_hashes B df))
     \<and> set new' = set new \<union> set (incoming_hashes B df)
     \<and> map hash_ligne ins' = map hash_ligne ins @ filter (\<lambda>h. h \<notin> set ex) (incoming_hashes B df)"
proof (induction df arbitrary: n new ins)
  case Nil then show ?case by (simp add: incoming_hashes_def)
next
  case (Cons row rows)
  let ?h = "calculate_row_hash B row"
  from Cons.prems obtain d where d: "row_data B ?h row = Inr d"
    by (auto simp: Let_def split: sum.splits)
  have hd: "hash_ligne d = ?h" using d by (rule row_data_hash)
  show ?case
  proof (cases "?h \<in> set ex")
    case True
    then have "iterrows B ex rows (Suc n, List.insert ?h new, ins) = Inr (n', new', ins')"
      using Cons.prems d by (simp add: Let_def)
    from Cons.IH[OF this] True show ?thesis
      by (auto simp: incoming_hashes_def)
  next
    case False
    then have "iterrows B ex rows (n, List.insert ?h new, ins @ [d]) = Inr (n', new', ins')"
      using Cons.prems d by (simp add: Let_def)
    from Cons.IH[OF this] False hd show ?thesis
      by (auto simp: incoming_hashes_def)
  qed
qed

text \<open>
  C10. The row hash is the digest of the texts of the row's values joined with the one
  character "|", whatever the digest function. So the rows with values ("a|b", "c") and
  ("a", "b|c") have the same hash; and after the first has been stored, a
  synchronisation of the second inserts nothing, counts one unchanged row and leaves the
  stored row of the first in place.
\<close>

theorem row_hash_collision:
  "calculate_row_hash B row = md5_hexdigest B (join ''|'' (map (py_str B) (map snd row)))
   \<and> calculate_row_hash B [(k1, Str ''a|b''), (k2, Str ''c'')]
       = calculate_row_hash B [(k1, Str ''a''), (k2, Str ''b|c'')]
   \<and> nb_inserted (fst (sync_from_excel B no_faults fs clk (clean empty_db) p
         [[(''libelle'', Str ''a|b''), (''num_facture'', Str ''c'')]] True)) = 1
   \<and> nb_inserted (fst (sync_from_excel B no_faults fs clk'
         (snd (sync_from_excel B no_faults fs clk (clean empty_db) p
            [[(''libelle'', Str ''a|b''), (''num_facture'', Str ''c'')]] True)) p
         [[(''libelle'', Str ''a''), (''num_facture'', Str ''b|c'')]] True)) = 0
   \<and> nb_unchanged (fst (sync_from_excel B no_faults fs clk'
         (snd (sync_from_excel B no_faults fs clk (clean empty_db) p
            [[(''libelle'', Str ''a|b''), (''num_facture'', Str ''c'')]] True)) p
         [[(''libelle'', Str ''a''), (''num_facture'', Str ''b|c'')]] True)) = 1
   \<and> map l_libelle (lignes_factures (working (snd (sync_from_excel B no_faults fs clk'
         (snd (sync_from_excel B no_faults fs clk (clean empty_db) p
            [[(''libelle'', Str ''a|b''), (''num_facture'', Str ''c'')]] True)) p
         [[(''libelle'', Str ''a''), (''num_facture'', Str ''b|c'')]] True))))
       = [Some ''a|b'']"
proof -
  let ?r1 = "[(''libelle'', Str ''a|b''), (''num_facture'', Str ''c'')]"
  let ?r2 = "[(''libelle'', Str ''a''), (''num_facture'', Str ''b|c'')]"
  let ?h = "md5_hexdigest B ''a|b|c''"
  have h1: "calculate_row_hash B ?r1 = ?h" by (simp add: calculate_row_hash_def row_values_def)
  have h2: "calculate_row_hash B ?r2 = ?h" by (simp add: calculate_row_hash_def row_values_def)
  have d1: "row_data B ?h ?r1 = Inr \<lparr>hash_ligne = ?h, l_marche = None, l_fournisseur = None,
      l_libelle = Some ''a|b'', l_date_sf = None, l_num_facture = Some ''c'',
      l_montant_initial = 0, l_montant_sf = 0, l_montant_ttc = 0, l_num_mandat = None,
      l_tranche = None, l_commande = None\<rparr>"
    by (simp add: row_data_def real_field_def text_field_def row_get_def)
  have d2: "\<exists>d. row_data B ?h ?r2 = Inr d"
    by (simp add: row_data_def real_field_def text_field_def row_get_def)
  then obtain d where d2': "row_data B ?h ?r2 = Inr d" ..
  let ?l = "\<lparr>hash_ligne = ?h, l_marche = None, l_fournisseur = None,
      l_libelle = Some ''a|b'', l_date_sf = None, l_num_facture = Some ''c'',
      l_montant_initial = 0, l_montant_sf = 0, l_montant_ttc = 0, l_num_mandat = None,
      l_tranche = None, l_commande = None\<rparr>"
  have s1: "nb_inserted (fst (sync_from_excel B no_faults fs clk (clean empty_db) p [?r1] True)) = 1
     \<and> lignes_factures (working (snd (sync_from_excel B no_faults fs clk (clean empty_db) p [?r1] True))) = [?l]"
    by (simp add: sync_from_excel_def sync_body_def no_faults_def clean_def empty_db_def h1 d1
          Let_def initial_stats_def executemany_insert_def insert_or_replace_def commit_def)
  let ?c1 = "snd (sync_from_excel B no_faults fs clk (clean empty_db) p [?r1] True)"
  have s2: "nb_inserted (fst (sync_from_excel B no_faults fs clk' ?c1 p [?r2] True)) = 0
     \<and> nb_unchanged (fst (sync_from_excel B no_faults fs clk' ?c1 p [?r2] True)) = 1
     \<and> lignes_factures (working (snd (sync_from_excel B no_faults fs clk' ?c1 p [?r2] True))) = [?l]"
    using s1
    by (simp add: sync_from_excel_def[of B no_faults fs clk' ?c1] sync_body_def[of B no_faults fs clk' ?c1]
          no_faults_def h2 d2' Let_def initial_stats_def commit_def)
  show ?thesis
    using h1 h2 s1 s2 by (simp add: calculate_row_hash_def row_values_def)
qed

lemma executemany_insert_nil [simp]: "executemany_insert tbl [] = tbl"
  by (simp add: executemany_insert_def)

lemma delete_hashes_nil [simp]: "delete_hashes tbl [] = tbl"
  by (simp add: delete_hashes_def)

text \<open>
  The two ways \<open>sync_body\<close> ends: in the \<^verbatim>\<open>except\<close> branch, on a connection whose
  committed database is the one it started with, or with every operation done and
  committed.
\<close>

lemma sync_body_cases:
  fixes B F fs clk conn p df
  defines "ex \<equiv> remdups (stored_hashes conn)"
  shows "(\<exists>c' st e. sync_body B F fs clk conn p df = on_error clk c' st e
            \<and> committed c' = committed conn
            \<and> ((\<exists>op. F op = Some e)
                \<or> (\<exists>row \<in> set df. row_data B (calculate_row_hash B row) row = Inl e)))
       \<or> (\<exists>n new ins.
            F SelectHashes = None \<and> F InsertSyncInfo = None \<and> F Commit = None
            \<and> iterrows B ex df (0, [], []) = Inr (n, new, ins)
            \<and> (ins \<noteq> [] \<longrightarrow> F InsertLignes = None)
            \<and> (filter (\<lambda>h. h \<notin> set new) ex \<noteq> [] \<longrightarrow> F DeleteLignes = None)
            \<and> sync_body B F fs clk conn p df
                = ((final_stats n (length ins) (length (filter (\<lambda>h. h \<notin> set new) ex)))
                      \<lparr>duration := t_end clk - t_start clk\<rparr>,
                   commit (conn\<lparr>working := (working conn)\<lparr>lignes_factures :=
                       delete_hashes (executemany_insert (lignes_factures (working conn)) ins)
                         (filter (\<lambda>h. h \<notin> set new) ex),
                     sync_info := sync_info (working conn)
                       @ [snapshot_row fs clk p (length df)
                            (final_stats n (length ins) (length (filter (\<lambda>h. h \<notin> set new) ex)))]\<rparr>\<rparr>)))"
proof (cases "F SelectHashes")
  case (Some e)
  then have "sync_body B F fs clk conn p df = on_error clk conn initial_stats e"
    by (simp add: sync_body_def)
  then show ?thesis using Some by blast
next
  case sh: None
  show ?thesis
  proof (cases "iterrows B ex df (0, [], [])")
    case (Inl a)
    obtain e n where a: "a = (e, n)" by (cases a)
    have "sync_body B F fs clk conn p df = on_error clk conn (initial_stats\<lparr>nb_unchanged := n\<rparr>) e"
      using sh Inl a by (simp add: sync_body_def ex_def stored_hashes_def)
    moreover have "\<exists>row \<in> set df. row_data B (calculate_row_hash B row) row = Inl e"
      using Inl a iterrows_error by blast
    ultimately show ?thesis by blast
  next
    case (Inr b)
    obtain n new ins where b: "b = (n, new, ins)" by (cases b)
    let ?del = "filter (\<lambda>h. h \<notin> set new) ex"
    let ?tbl = "lignes_factures (working conn)"
    let ?st1 = "initial_stats\<lparr>nb_unchanged := n\<rparr>"
    have it: "iterrows B (remdups (map hash_ligne ?tbl)) df (0, [], []) = Inr (n, new, ins)"
      using Inr b by (simp add: ex_def stored_hashes_def)
    show ?thesis
    proof (cases "ins \<noteq> [] \<and> F InsertLignes \<noteq> None")
      case True
      then obtain e where e: "F InsertLignes = Some e" by auto
      have "sync_body B F fs clk conn p df = on_error clk conn ?st1 e"
        using sh it True e by (simp add: sync_body_def Let_def)
      then show ?thesis using e by blast
    next
      case ni: False
      have nif: "(ins \<noteq> [] \<and> F InsertLignes \<noteq> None) = False" using ni by simp
      let ?tbl1 = "executemany_insert ?tbl ins"
      let ?st2 = "?st1\<lparr>nb_inserted := length ins\<rparr>"
      have st2: "(if ins \<noteq> [] then ?st1\<lparr>nb_inserted := length ins\<rparr> else ?st1) = ?st2"
        by (simp add: initial_stats_def)
      have tbl1: "(if ins \<noteq> [] then executemany_insert ?tbl ins else ?tbl) = ?tbl1"
        by simp
      show ?thesis
      proof (cases "?del \<noteq> [] \<and> F DeleteLignes \<noteq> None")
        case True
        then obtain e where e: "F DeleteLignes = Some e" by auto
        have "sync_body B F fs clk conn p df
            = on_error clk (conn\<lparr>working := (working conn)\<lparr>lignes_factures := ?tbl1\<rparr>\<rparr>) ?st2 e"
          using sh it True e ni unfolding sync_body_def Let_def
          by (auto simp add: st2 tbl1 ex_def stored_hashes_def)
        then show ?thesis using e by force
      next
        case nd: False
        have ndf: "(?del \<noteq> [] \<and> F DeleteLignes \<noteq> None) = False" using nd by simp
        let ?tbl2 = "delete_hashes ?tbl1 ?del"
        let ?st3 = "final_stats n (length ins) (length ?del)"
        let ?conn2 = "conn\<lparr>working := (working conn)\<lparr>lignes_factures := ?tbl2\<rparr>\<rparr>"
        have st3: "(if ?del \<noteq> [] then ?st2\<lparr>nb_deleted := length ?del\<rparr> else ?st2) = ?st3"
          by (simp add: initial_stats_def final_stats_def)
        have tbl2: "(if ?del \<noteq> [] then delete_hashes ?tbl1 ?del else ?tbl1) = ?tbl2"
          by simp
        have body: "sync_body B F fs clk conn p df =
            (case F InsertSyncInfo of
               Some e \<Rightarrow> on_error clk ?conn2 ?st3 e
             | None \<Rightarrow>
                (let conn3 = ?conn2\<lparr>working := (working ?conn2)
                       \<lparr>sync_info := sync_info (working ?conn2)
                          @ [snapshot_row fs clk p (length df) ?st3]\<rparr>\<rparr>
                 in case F Commit of
                      Some e \<Rightarrow> on_error clk conn3 ?st3 e
                    | None \<Rightarrow> (?st3\<lparr>duration := t_end clk - t_start clk\<rparr>, commit conn3)))"
          using sh it ni nd unfolding sync_body_def Let_def ex_def stored_hashes_def
          by (auto simp add: initial_stats_def final_stats_def split: option.splits)
        show ?thesis
        proof (cases "F InsertSyncInfo")
          case (Some e)
          then have "sync_body B F fs clk conn p df = on_error clk ?conn2 ?st3 e"
            using body by simp
          then show ?thesis using Some by force
        next
          case si: None
          show ?thesis
          proof (cases "F Commit")
            case (Some e)
            then have "sync_body B F fs clk conn p df
               = on_error clk (?conn2\<lparr>working := (working ?conn2)
                       \<lparr>sync_info := sync_info (working ?conn2)
                          @ [snapshot_row fs clk p (length df) ?st3]\<rparr>\<rparr>) ?st3 e"
              using body si by (simp add: Let_def)
            then show ?thesis using Some by force
          next
            case cm: None
            have "sync_body B F fs clk conn p df
                = (?st3\<lparr>duration := t_end clk - t_start clk\<rparr>,
                   commit (conn\<lparr>working := (working conn)\<lparr>lignes_factures := ?tbl2,
                     sync_info := sync_info (working conn)
                       @ [snapshot_row fs clk p (length df) ?st3]\<rparr>\<rparr>))"
              using body si cm by (simp add: Let_def)
            then show ?thesis
              using sh si cm Inr b ni nd by (intro disjI2 exI[of _ n] exI[of _ new] exI[of _ ins]) auto
          qed
        qed
      qed
    qed
  qed
qed

lemma rollback_eq:
  fixes conn c' :: connection
  assumes "committed c' = committed conn" "working conn = committed conn"
  shows "rollback c' = conn"
  using assms by (cases conn, cases c') (simp add: rollback_def)

lemma final_stats_status [simp]:
  "status ((final_stats n i d)\<lparr>duration := t\<rparr>) = ''success''"
  "nb_unchanged ((final_stats n i d)\<lparr>duration := t\<rparr>) = n"
  "nb_inserted ((final_stats n i d)\<lparr>duration := t\<rparr>) = i"
  "nb_deleted ((final_stats n i d)\<lparr>duration := t\<rparr>) = d"
  by (simp_all add: final_stats_def initial_stats_def)

lemma sync_body_split:
  obtains (err) c' st e where
      "sync_body B F fs clk conn p df = on_error clk c' st e"
      "committed c' = committed conn"
      "(\<exists>op. F op = Some e)
        \<or> (\<exists>row \<in> set df. row_data B (calculate_row_hash B row) row = Inl e)"
  | (ok) n new ins where
    "F SelectHashes = None" "F InsertSyncInfo = None" "F Commit = None"
    "iterrows B (remdups (stored_hashes conn)) df (0, [], []) = Inr (n, new, ins)"
    "ins \<noteq> [] \<longrightarrow> F InsertLignes = None"
    "filter (\<lambda>h. h \<notin> set new) (remdups (stored_hashes conn)) \<noteq> [] \<longrightarrow> F DeleteLignes = None"
    "sync_body B F fs clk conn p df =
       ((final_stats n (length ins)
          (length (filter (\<lambda>h. h \<notin> set new) (remdups (stored_hashes conn)))))
        \<lparr>duration := t_end clk - t_start clk\<rparr>,
        commit (conn\<lparr>working := (working conn)\<lparr>lignes_factures :=
             delete_hashes (executemany_insert (lignes_factures (working conn)) ins)
               (filter (\<lambda>h. h \<notin> set new) (remdups (stored_hashes conn))),
           sync_info := sync_info (working conn)
             @ [snapshot_row fs clk p (length df)
                  (final_stats n (length ins)
                    (length (filter (\<lambda>h. h \<notin> set new) (remdups (stored_hashes conn)))))]\<rparr>\<rparr>))"
  using sync_body_cases[of B F fs clk conn p df] by blast

lemma sync_body_error:
  assumes "status (fst (sync_body B F fs clk conn p df)) = ''error''"
    and "working conn = committed conn"
  shows "snd (sync_body B F fs clk conn p df) = conn
     \<and> (\<exists>e. message (fst (sync_body B F fs clk conn p df)) = Some (ErrorText e)
            \<and> ((\<exists>op. F op = Some e)
                \<or> (\<exists>row \<in> set df. row_data B (calculate_row_hash B row) row = Inl e)))"
proof (cases rule: sync_body_split[of B F fs clk conn p df])
  case (err c' st e)
  have "snd (sync_body B F fs clk conn p df) = conn"
    unfolding err(1) using rollback_eq[OF err(2) assms(2)] by simp
  moreover have "message (fst (sync_body B F fs clk conn p df)) = Some (ErrorText e)"
    unfolding err(1) by simp
  ultimately show ?thesis using err(3) by blast
next
  case (ok n new ins)
  then have "status (fst (sync_body B F fs clk conn p df)) = ''success''" by simp
  then show ?thesis using assms(1) by simp
qed

lemma sync_body_ok:
  assumes "status (fst (sync_body B F fs clk conn p df)) \<noteq> ''error''"
  obtains n new ins where
    "F SelectHashes = None" "F InsertSyncInfo = None" "F Commit = None"
    "iterrows B (remdups (stored_hashes conn)) df (0, [], []) = Inr (n, new, ins)"
    "ins \<noteq> [] \<longrightarrow> F InsertLignes = None"
    "filter (\<lambda>h. h \<notin> set new) (remdups (stored_hashes conn)) \<noteq> [] \<longrightarrow> F DeleteLignes = None"
    "sync_body B F fs clk conn p df =
       ((final_stats n (length ins)
          (length (filter (\<lambda>h. h \<notin> set new) (remdups (stored_hashes conn)))))
        \<lparr>duration := t_end clk - t_start clk\<rparr>,
        commit (conn\<lparr>working := (working conn)\<lparr>lignes_factures :=
             delete_hashes (executemany_insert (lignes_factures (working conn)) ins)
               (filter (\<lambda>h. h \<notin> set new) (remdups (stored_hashes conn))),
           sync_info := sync_info (working conn)
             @ [snapshot_row fs clk p (length df)
                  (final_stats n (length ins)
                    (length (filter (\<lambda>h. h \<notin> set new) (remdups (stored_hashes conn)))))]\<rparr>\<rparr>))"
proof (cases rule: sync_body_split[of B F fs clk conn p df])
  case (err c' st e)
  then show ?thesis using assms by simp
next
  case (ok n new ins)
  then show ?thesis using that by blast
qed

lemma sync_body_committed:
  assumes "status (fst (sync_body B F fs clk conn p df)) \<noteq> ''error''"
  shows "working (snd (sync_body B F fs clk conn p df))
       = committed (snd (sync_body B F fs clk conn p df))"
  using assms by (elim sync_body_ok) (simp add: commit_def)

lemma sync_body_status:
  "status (fst (sync_body B F fs clk conn p df)) = ''error''
   \<or> status (fst (sync_body B F fs clk conn p df)) = ''success''"
  by (cases rule: sync_body_split[of B F fs clk conn p df]) simp_all

lemma sync_body_fault_reached:
  assumes "F SelectHashes \<noteq> None \<or> F InsertSyncInfo \<noteq> None \<or> F Commit \<noteq> None
     \<or> (F InsertLignes \<noteq> None \<and> (\<exists>h \<in> set (incoming_hashes B df). h \<notin> set (stored_hashes conn)))
     \<or> (F DeleteLignes \<noteq> None \<and> (\<exists>h \<in> set (stored_hashes conn). h \<notin> set (incoming_hashes B df)))"
  shows "status (fst (sync_body B F fs clk conn p df)) = ''error''"
proof (rule ccontr)
  assume "status (fst (sync_body B F fs clk conn p df)) \<noteq> ''error''"
  then obtain n new ins where o:
    "F SelectHashes = None" "F InsertSyncInfo = None" "F Commit = None"
    "iterrows B (remdups (stored_hashes conn)) df (0, [], []) = Inr (n, new, ins)"
    "ins \<noteq> [] \<longrightarrow> F InsertLignes = None"
    "filter (\<lambda>h. h \<notin> set new) (remdups (stored_hashes conn)) \<noteq> [] \<longrightarrow> F DeleteLignes = None"
    by (elim sync_body_ok)
  from iterrows_ok[OF o(4)] have
    new: "set new = set (incoming_hashes B df)"
    and ins: "map hash_ligne ins = filter (\<lambda>h. h \<notin> set (stored_hashes conn)) (incoming_hashes B df)"
    by simp_all
  have i: "ins \<noteq> []" if "\<exists>h \<in> set (incoming_hashes B df). h \<notin> set (stored_hashes conn)"
  proof -
    from that have "filter (\<lambda>h. h \<notin> set (stored_hashes conn)) (incoming_hashes B df) \<noteq> []"
      by (auto simp: filter_empty_conv)
    then show ?thesis using ins by auto
  qed
  have d: "filter (\<lambda>h. h \<notin> set new) (remdups (stored_hashes conn)) \<noteq> []"
    if "\<exists>h \<in> set (stored_hashes conn). h \<notin> set (incoming_hashes B df)"
    using that new by (auto simp: filter_empty_conv)
  show False using assms o i d by auto
qed

text \<open>
  C8. Called on a connection with no open transaction: when the call ends with status
  "error", the connection (rows and snapshot history) is exactly what it was before the
  call, and the message is the text of the exception, raised by a storage operation or by
  the conversion of a row. A call that is not skipped ends with status "error" whenever
  the reading of the stored hashes, the insertion of the snapshot or the commit fails,
  and whenever the insertion of rows or the deletion of rows fails while there is a row
  to insert or to delete; so does a call without \<open>force\<close> on an existing file when the
  query of the snapshots fails. A call that does not end in error leaves nothing pending.
\<close>

theorem sync_from_excel_atomic:
  assumes "working conn = committed conn"
  shows "(status (fst (sync_from_excel B F fs clk conn filepath df force)) = ''error'' \<longrightarrow>
          snd (sync_from_excel B F fs clk conn filepath df force) = conn
          \<and> (\<exists>e. message (fst (sync_from_excel B F fs clk conn filepath df force))
                    = Some (ErrorText e)
                 \<and> ((\<exists>op. F op = Some e)
                     \<or> (\<exists>row \<in> set df. row_data B (calculate_row_hash B row) row = Inl e))))
       \<and> (status (fst (sync_from_excel B F fs clk conn filepath df force)) \<noteq> ''skipped''
          \<and> (F SelectHashes \<noteq> None \<or> F InsertSyncInfo \<noteq> None \<or> F Commit \<noteq> None
              \<or> (F InsertLignes \<noteq> None
                  \<and> (\<exists>h \<in> set (incoming_hashes B df). h \<notin> set (stored_hashes conn)))
              \<or> (F DeleteLignes \<noteq> None
                  \<and> (\<exists>h \<in> set (stored_hashes conn). h \<notin> set (incoming_hashes B df))))
          \<longrightarrow> status (fst (sync_from_excel B F fs clk conn filepath df force)) = ''error'')
       \<and> (\<not> force \<and> fs filepath \<noteq> None \<and> F SelectSyncInfo \<noteq> None
          \<longrightarrow> status (fst (sync_from_excel B F fs clk conn filepath df force)) = ''error'')
       \<and> (status (fst (sync_from_excel B F fs clk conn filepath df force)) \<noteq> ''error''
          \<longrightarrow> working (snd (sync_from_excel B F fs clk conn filepath df force))
              = committed (snd (sync_from_excel B F fs clk conn filepath df force)))"
proof -
  let ?R = "sync_from_excel B F fs clk conn filepath df force"
  let ?S = "sync_body B F fs clk conn filepath df"
  consider (body) "?R = ?S" "force \<or> fs filepath = None \<or> F SelectSyncInfo = None"
    | (err) e where "?R = on_error clk conn initial_stats e" "F SelectSyncInfo = Some e"
        "\<not> force" "fs filepath \<noteq> None"
    | (skip) r where "?R = (initial_stats\<lparr>status := ''skipped'', message := Some (Reason r)\<rparr>, conn)"
        "\<not> force" "fs filepath = None \<or> F SelectSyncInfo = None"
  proof (cases force)
    case True
    then show ?thesis using body by (simp add: sync_from_excel_def)
  next
    case False
    show ?thesis
    proof (cases "file_needs_sync F fs conn filepath")
      case (Inl e)
      then have "F SelectSyncInfo = Some e" "fs filepath \<noteq> None"
        by (auto simp: file_needs_sync_def split: option.splits if_splits)
      then show ?thesis using err False Inl by (simp add: sync_from_excel_def)
    next
      case (Inr b)
      then have ok: "fs filepath = None \<or> F SelectSyncInfo = None"
        by (auto simp: file_needs_sync_def split: option.splits if_splits)
      obtain needs r where b: "b = (needs, r)" by (cases b)
      show ?thesis
      proof (cases needs)
        case True
        then show ?thesis using body False Inr b ok by (simp add: sync_from_excel_def)
      next
        case nf: False
        then show ?thesis using skip False Inr b ok by (simp add: sync_from_excel_def)
      qed
    qed
  qed
  then show ?thesis
  proof cases
    case body
    show ?thesis
      unfolding body(1)
    proof (intro conjI impI)
      assume "status (fst ?S) = ''error''"
      then show "snd ?S = conn"
        and "\<exists>e. message (fst ?S) = Some (ErrorText e)
                 \<and> ((\<exists>op. F op = Some e)
                     \<or> (\<exists>row \<in> set df. row_data B (calculate_row_hash B row) row = Inl e))"
        using sync_body_error[OF _ assms, of B F fs clk filepath df] by simp_all
    next
      assume "status (fst ?S) \<noteq> ''skipped''
          \<and> (F SelectHashes \<noteq> None \<or> F InsertSyncInfo \<noteq> None \<or> F Commit \<noteq> None
              \<or> (F InsertLignes \<noteq> None
                  \<and> (\<exists>h \<in> set (incoming_hashes B df). h \<notin> set (stored_hashes conn)))
              \<or> (F DeleteLignes \<noteq> None
                  \<and> (\<exists>h \<in> set (stored_hashes conn). h \<notin> set (incoming_hashes B df))))"
      then show "status (fst ?S) = ''error''"
        by (intro sync_body_fault_reached) (elim conjE)
    next
      assume "\<not> force \<and> fs filepath \<noteq> None \<and> F SelectSyncInfo \<noteq> None"
      then show "status (fst ?S) = ''error''" using body(2) by auto
    next
      assume "status (fst ?S) \<noteq> ''error''"
      then show "working (snd ?S) = committed (snd ?S)" by (rule sync_body_committed)
    qed
  next
    case err
    have "rollback conn = conn" using rollback_eq[OF refl assms] .
    then show ?thesis unfolding err(1) using err(2) by auto
  next
    case skip
    show ?thesis unfolding skip(1) using skip(2,3) assms by auto
  qed
qed

lemma hash_row_of: "calculate_row_hash stub_builtins (row_of s) = s"
  by (simp add: calculate_row_hash_def row_of_def row_values_def stub_builtins_def)

lemma row_data_row_of: "row_data B s (row_of s) = Inr (ligne_of s)"
  by (simp add: row_data_def row_of_def real_field_def text_field_def row_get_def ligne_of_def)

lemma hash_ligne_of [simp]: "hash_ligne (ligne_of s) = s"
  by (simp add: ligne_of_def)

theorem sync_from_excel_atomic_witness:
  "status (fst (sync_from_excel stub_builtins commit_fault fs1 clock0 (clean empty_db)
       ''f.xlsx'' [row_of ''a''] True)) = ''error''
   \<and> snd (sync_from_excel stub_builtins commit_fault fs1 clock0 (clean empty_db)
       ''f.xlsx'' [row_of ''a''] True) = clean empty_db
   \<and> message (fst (sync_from_excel stub_builtins commit_fault fs1 clock0 (clean empty_db)
       ''f.xlsx'' [row_of ''a''] True)) = Some (ErrorText ''disk I/O error'')"
proof -
  let ?R = "sync_from_excel stub_builtins commit_fault fs1 clock0 (clean empty_db)
       ''f.xlsx'' [row_of ''a''] True"
  have cl: "working (clean empty_db) = committed (clean empty_db)" by (simp add: clean_def)
  note t = sync_from_excel_atomic[OF cl, of stub_builtins commit_fault fs1 clock0 "''f.xlsx''"
      "[row_of ''a'']" True]
  have "?R = sync_body stub_builtins commit_fault fs1 clock0 (clean empty_db) ''f.xlsx'' [row_of ''a'']"
    by (simp add: sync_from_excel_def)
  then have ns: "status (fst ?R) \<noteq> ''skipped''"
    using sync_body_status[of stub_builtins commit_fault fs1 clock0 "clean empty_db" "''f.xlsx''"
        "[row_of ''a'']"] by auto
  have cf: "commit_fault Commit \<noteq> None" by (simp add: commit_fault_def)
  from t ns cf have e: "status (fst ?R) = ''error''" by blast
  with t have c: "snd ?R = clean empty_db" by blast
  from t e obtain m where m: "message (fst ?R) = Some (ErrorText m)"
    "(\<exists>op. commit_fault op = Some m)
      \<or> (\<exists>row \<in> set [row_of ''a'']. row_data stub_builtins (calculate_row_hash stub_builtins row) row = Inl m)"
    by blast
  have "m = ''disk I/O error''"
    using m(2) by (auto simp: commit_fault_def hash_row_of row_data_row_of split: if_splits)
  with e c m(1) show ?thesis by simp
qed

lemma insert_or_replace_append:
  assumes "hash_ligne d \<notin> hash_ligne ` set tbl"
  shows "insert_or_replace (tbl @ xs) d = tbl @ insert_or_replace xs d"
proof -
  have "\<forall>l \<in> set tbl. hash_ligne l \<noteq> hash_ligne d"
    using assms by (metis imageI)
  then have "filter (\<lambda>l. hash_ligne l \<noteq> hash_ligne d) tbl = tbl"
    by (simp add: filter_id_conv)
  then show ?thesis by (simp add: insert_or_replace_def)
qed

lemma foldl_insert_append:
  assumes "\<forall>d \<in> set ds. hash_ligne d \<notin> hash_ligne ` set tbl"
  shows "foldl insert_or_replace (tbl @ xs) ds = tbl @ foldl insert_or_replace xs ds"
  using assms
proof (induction ds arbitrary: xs)
  case Nil then show ?case by simp
next
  case (Cons d ds)
  then show ?case by (simp add: insert_or_replace_append)
qed

lemma executemany_insert_fresh:
  assumes "\<forall>d \<in> set ds. hash_ligne d \<notin> hash_ligne ` set tbl"
  shows "executemany_insert tbl ds = tbl @ executemany_insert [] ds"
  using foldl_insert_append[OF assms, of "[]"] by (simp add: executemany_insert_def)

lemma insert_or_replace_hashes:
  "hash_ligne ` set (insert_or_replace xs d) = insert (hash_ligne d) (hash_ligne ` set xs)"
  by (auto simp: insert_or_replace_def)

lemma executemany_insert_hashes:
  "hash_ligne ` set (executemany_insert xs ds) = hash_ligne ` set xs \<union> hash_ligne ` set ds"
  unfolding executemany_insert_def
  by (induction ds arbitrary: xs) (auto simp: insert_or_replace_hashes)

lemma sync_body_diff:
  assumes ok: "status (fst (sync_body B F fs clk conn p df)) \<noteq> ''error''"
  defines "R \<equiv> sync_body B F fs clk conn p df"
  defines "hs \<equiv> incoming_hashes B df"
  shows "nb_unchanged (fst R) = length (filter (\<lambda>h. h \<in> set (stored_hashes conn)) hs)"
    and "nb_inserted (fst R) = length (filter (\<lambda>h. h \<notin> set (stored_hashes conn)) hs)"
    and "nb_deleted (fst R) = card (set (stored_hashes conn) - set hs)"
    and "\<exists>new_rows. lignes_factures (working (snd R))
             = filter (\<lambda>l. hash_ligne l \<in> set hs) (lignes_factures (working conn)) @ new_rows
           \<and> set (map hash_ligne new_rows) = set hs - set (stored_hashes conn)"
    and "set (stored_hashes (snd R)) = set hs"
    and "committed (snd R) = working (snd R)"
    and "sync_info (working (snd R))
           = sync_info (working conn) @ [snapshot_row fs clk p (length df) ((fst R)\<lparr>duration := 0\<rparr>)]"
proof -
  let ?ex = "remdups (stored_hashes conn)"
  let ?tbl = "lignes_factures (working conn)"
  from ok obtain n new ins where o:
    "iterrows B ?ex df (0, [], []) = Inr (n, new, ins)"
    "R = ((final_stats n (length ins) (length (filter (\<lambda>h. h \<notin> set new) ?ex)))
            \<lparr>duration := t_end clk - t_start clk\<rparr>,
          commit (conn\<lparr>working := (working conn)\<lparr>lignes_factures :=
             delete_hashes (executemany_insert ?tbl ins) (filter (\<lambda>h. h \<notin> set new) ?ex),
           sync_info := sync_info (working conn)
             @ [snapshot_row fs clk p (length df)
                  (final_stats n (length ins) (length (filter (\<lambda>h. h \<notin> set new) ?ex)))]\<rparr>\<rparr>))"
    unfolding R_def by (elim sync_body_ok)
  from iterrows_ok[OF o(1)] have
    n: "n = length (filter (\<lambda>h. h \<in> set (stored_hashes conn)) hs)"
    and new: "set new = set hs"
    and ins: "map hash_ligne ins = filter (\<lambda>h. h \<notin> set (stored_hashes conn)) hs"
    by (simp_all add: hs_def)
  let ?del = "filter (\<lambda>h. h \<notin> set new) ?ex"
  show "nb_unchanged (fst R) = length (filter (\<lambda>h. h \<in> set (stored_hashes conn)) hs)"
    unfolding o(2) using n by simp
  have "length ins = length (map hash_ligne ins)" by simp
  also have "\<dots> = length (filter (\<lambda>h. h \<notin> set (stored_hashes conn)) hs)"
    unfolding ins ..
  finally show "nb_inserted (fst R) = length (filter (\<lambda>h. h \<notin> set (stored_hashes conn)) hs)"
    unfolding o(2) by simp
  have "distinct ?del" by simp
  then have "length ?del = card (set ?del)" by (rule distinct_card[symmetric])
  also have "set ?del = set (stored_hashes conn) - set hs" using new by auto
  finally show "nb_deleted (fst R) = card (set (stored_hashes conn) - set hs)"
    unfolding o(2) by simp
  have fresh: "\<forall>d \<in> set ins. hash_ligne d \<notin> hash_ligne ` set ?tbl"
  proof
    fix d assume "d \<in> set ins"
    then have "hash_ligne d \<in> set (map hash_ligne ins)" by simp
    then show "hash_ligne d \<notin> hash_ligne ` set ?tbl"
      unfolding ins by (auto simp: stored_hashes_def)
  qed
  let ?N = "executemany_insert [] ins"
  have N: "set (map hash_ligne ?N) = set hs - set (stored_hashes conn)"
  proof -
    have "set (map hash_ligne ?N) = set (map hash_ligne ins)"
      using executemany_insert_hashes[of "[]" ins] by simp
    then show ?thesis unfolding ins by auto
  qed
  have t1: "filter (\<lambda>l. hash_ligne l \<notin> set ?del) ?tbl = filter (\<lambda>l. hash_ligne l \<in> set hs) ?tbl"
    using new by (intro filter_cong) (auto simp: stored_hashes_def)
  have t2: "filter (\<lambda>l. hash_ligne l \<notin> set ?del) ?N = ?N"
    unfolding filter_id_conv using N by auto
  have "lignes_factures (working (snd R)) = delete_hashes (?tbl @ ?N) ?del"
    unfolding o(2) executemany_insert_fresh[OF fresh] by (simp add: commit_def)
  also have "\<dots> = filter (\<lambda>l. hash_ligne l \<notin> set ?del) ?tbl
                    @ filter (\<lambda>l. hash_ligne l \<notin> set ?del) ?N"
    unfolding delete_hashes_def by (rule filter_append)
  also have "\<dots> = filter (\<lambda>l. hash_ligne l \<in> set hs) ?tbl @ ?N"
    unfolding t1 t2 ..
  finally have tbl': "lignes_factures (working (snd R))
      = filter (\<lambda>l. hash_ligne l \<in> set hs) ?tbl @ ?N" .
  show "\<exists>new_rows. lignes_factures (working (snd R))
             = filter (\<lambda>l. hash_ligne l \<in> set hs) (lignes_factures (working conn)) @ new_rows
           \<and> set (map hash_ligne new_rows) = set hs - set (stored_hashes conn)"
    using tbl' N by blast
  show "set (stored_hashes (snd R)) = set hs"
    unfolding stored_hashes_def tbl' using N by (auto simp: stored_hashes_def)
  show "committed (snd R) = working (snd R)"
    unfolding o(2) by (simp add: commit_def)
  show "sync_info (working (snd R))
           = sync_info (working conn) @ [snapshot_row fs clk p (length df) ((fst R)\<lparr>duration := 0\<rparr>)]"
    unfolding o(2) by (simp add: commit_def final_stats_def initial_stats_def)
qed

lemma text_field_cell_text: "text_field B row k = cell_text B (row_get row k)"
  by (cases "row_get row k") (simp_all add: text_field_def cell_text_def)

lemma real_field_converts:
  "amount_converts B (row_get row k) \<Longrightarrow> real_field B row k = Inr (cell_amount B (row_get row k))"
  by (cases "row_get row k")
     (auto simp: real_field_def cell_amount_def amount_converts_def split: sum.splits)

lemma row_data_converts:
  assumes "row_converts B row"
  shows "row_data B (calculate_row_hash B row) row = Inr (stored_form B row)"
  using assms
  by (simp add: row_data_def row_converts_def real_field_converts text_field_cell_text
        stored_form_def)

lemma stored_form_hash [simp]: "hash_ligne (stored_form B row) = calculate_row_hash B row"
  by (simp add: stored_form_def)

lemma iterrows_rows:
  assumes "list_all (row_converts B) df"
  shows "\<exists>new'. iterrows B ex df (n, new, ins)
            = Inr (n + length (filter (\<lambda>row. calculate_row_hash B row \<in> set ex) df), new',
                   ins @ map (stored_form B)
                     (filter (\<lambda>row. calculate_row_hash B row \<notin> set ex) df))"
  using assms
proof (induction df arbitrary: n new ins)
  case Nil
  then show ?case by simp
next
  case (Cons row rows)
  then have c: "row_converts B row" and r: "list_all (row_converts B) rows" by simp_all
  note d = row_data_converts[OF c]
  show ?case
  proof (cases "calculate_row_hash B row \<in> set ex")
    case True
    from Cons.IH[OF r, of "Suc n" "List.insert (calculate_row_hash B row) new" ins]
    show ?thesis using True d by (simp add: Let_def)
  next
    case False
    from Cons.IH[OF r, of n "List.insert (calculate_row_hash B row) new"
        "ins @ [stored_form B row]"]
    show ?thesis using False d by (simp add: Let_def)
  qed
qed

lemma foldl_insert_last:
  "foldl insert_or_replace xs ds
     = filter (\<lambda>l. hash_ligne l \<notin> hash_ligne ` set ds) xs @ last_per_hash ds"
proof (induction ds arbitrary: xs)
  case Nil
  then show ?case by simp
next
  case (Cons d ds)
  have f: "filter (\<lambda>l. hash_ligne l \<notin> hash_ligne ` set ds)
             (filter (\<lambda>l. hash_ligne l \<noteq> hash_ligne d) xs)
           = filter (\<lambda>l. hash_ligne l \<notin> hash_ligne ` set (d # ds)) xs"
    unfolding filter_filter by (rule filter_cong) auto
  have "foldl insert_or_replace xs (d # ds)
          = foldl insert_or_replace (insert_or_replace xs d) ds"
    by simp
  also have "\<dots> = filter (\<lambda>l. hash_ligne l \<notin> hash_ligne ` set ds) (insert_or_replace xs d)
                    @ last_per_hash ds"
    by (rule Cons.IH)
  also have "\<dots> = filter (\<lambda>l. hash_ligne l \<notin> hash_ligne ` set (d # ds)) xs
                    @ last_per_hash (d # ds)"
    unfolding insert_or_replace_def filter_append f by simp
  finally show ?case .
qed

lemma executemany_insert_last: "executemany_insert [] ds = last_per_hash ds"
  unfolding executemany_insert_def foldl_insert_last by simp

lemma last_per_hash_distinct: "distinct (map hash_ligne ds) \<Longrightarrow> last_per_hash ds = ds"
  by (induction ds) simp_all

lemma sync_body_rows:
  assumes ok: "status (fst (sync_body B F fs clk conn p df)) \<noteq> ''error''"
  shows "\<exists>n new ins.
           iterrows B (remdups (stored_hashes conn)) df (0, [], []) = Inr (n, new, ins)
           \<and> lignes_factures (working (snd (sync_body B F fs clk conn p df)))
               = filter (\<lambda>l. hash_ligne l \<in> set (incoming_hashes B df))
                   (lignes_factures (working conn)) @ executemany_insert [] ins"
proof -
  let ?ex = "remdups (stored_hashes conn)"
  let ?tbl = "lignes_factures (working conn)"
  let ?hs = "incoming_hashes B df"
  let ?R = "sync_body B F fs clk conn p df"
  from ok obtain n new ins where o:
    "iterrows B ?ex df (0, [], []) = Inr (n, new, ins)"
    "?R = ((final_stats n (length ins) (length (filter (\<lambda>h. h \<notin> set new) ?ex)))
            \<lparr>duration := t_end clk - t_start clk\<rparr>,
          commit (conn\<lparr>working := (working conn)\<lparr>lignes_factures :=
             delete_hashes (executemany_insert ?tbl ins) (filter (\<lambda>h. h \<notin> set new) ?ex),
           sync_info := sync_info (working conn)
             @ [snapshot_row fs clk p (length df)
                  (final_stats n (length ins) (length (filter (\<lambda>h. h \<notin> set new) ?ex)))]\<rparr>\<rparr>))"
    by (elim sync_body_ok)
  from iterrows_ok[OF o(1)] have
    new: "set new = set ?hs"
    and ins: "map hash_ligne ins = filter (\<lambda>h. h \<notin> set (stored_hashes conn)) ?hs"
    by simp_all
  let ?del = "filter (\<lambda>h. h \<notin> set new) ?ex"
  have fresh: "\<forall>d \<in> set ins. hash_ligne d \<notin> hash_ligne ` set ?tbl"
  proof
    fix d assume "d \<in> set ins"
    then have "hash_ligne d \<in> set (map hash_ligne ins)" by simp
    then show "hash_ligne d \<notin> hash_ligne ` set ?tbl"
      unfolding ins by (auto simp: stored_hashes_def)
  qed
  let ?N = "executemany_insert [] ins"
  have N: "set (map hash_ligne ?N) = set ?hs - set (stored_hashes conn)"
  proof -
    have "set (map hash_ligne ?N) = set (map hash_ligne ins)"
      using executemany_insert_hashes[of "[]" ins] by simp
    then show ?thesis unfolding ins by auto
  qed
  have t1: "filter (\<lambda>l. hash_ligne l \<notin> set ?del) ?tbl = filter (\<lambda>l. hash_ligne l \<in> set ?hs) ?tbl"
    using new by (intro filter_cong) (auto simp: stored_hashes_def)
  have t2: "filter (\<lambda>l. hash_ligne l \<notin> set ?del) ?N = ?N"
    unfolding filter_id_conv using N by auto
  have "lignes_factures (working (snd ?R)) = delete_hashes (?tbl @ ?N) ?del"
    unfolding o(2) executemany_insert_fresh[OF fresh] by (simp add: commit_def)
  also have "\<dots> = filter (\<lambda>l. hash_ligne l \<notin> set ?del) ?tbl
                    @ filter (\<lambda>l. hash_ligne l \<notin> set ?del) ?N"
    unfolding delete_hashes_def by (rule filter_append)
  also have "\<dots> = filter (\<lambda>l. hash_ligne l \<in> set ?hs) ?tbl @ ?N"
    unfolding t1 t2 ..
  finally show ?thesis using o(1) by blast
qed

lemma sync_body_succeeds:
  assumes "F SelectHashes = None" and "F InsertLignes = None" and "F DeleteLignes = None"
    and "F InsertSyncInfo = None" and "F Commit = None"
    and "list_all (row_converts B) df"
  shows "status (fst (sync_body B F fs clk conn p df)) = ''success''"
proof -
  from iterrows_rows[OF assms(6), of "remdups (map hash_ligne (lignes_factures (working conn)))"
      0 "[]" "[]"]
  obtain new' where it:
    "iterrows B (remdups (map hash_ligne (lignes_factures (working conn)))) df (0, [], [])
       = Inr (0 + length (filter (\<lambda>row. calculate_row_hash B row
                 \<in> set (remdups (map hash_ligne (lignes_factures (working conn))))) df), new',
              [] @ map (stored_form B) (filter (\<lambda>row. calculate_row_hash B row
                 \<notin> set (remdups (map hash_ligne (lignes_factures (working conn))))) df))"
    by blast
  show ?thesis
    unfolding sync_body_def Let_def it
    using assms(1-5) by (simp add: initial_stats_def)
qed

text \<open>
  C2 (as stated, refuted). The claim holds for every call that proceeds (forced, or the
  file needs a synchronisation) and "for every incoming row list". Take a forced
  synchronisation of one row whose \<^verbatim>\<open>montant_initial\<close> cell is the text \<^verbatim>\<open>abc\<close>, over a
  cache that holds one row with another hash, with no failure of the storage. The hash
  of the incoming row is not stored and the stored hash is not among the incoming ones,
  so the claim asks for one insertion and one deletion. But \<^verbatim>\<open>float\<close> raises on the text
  inside the \<^verbatim>\<open>try\<close>: the call ends with status "error", reports 0 inserted and
  0 deleted, and the cache still holds the old row and only it.
\<close>

theorem sync_from_excel_text_amount_counterexample:
  "calculate_row_hash stub_builtins bad_row
      \<notin> set (stored_hashes (clean \<lparr>lignes_factures = [ligne_of ''a''], sync_info = []\<rparr>))
   \<and> hash_ligne (ligne_of ''a'') \<notin> set (incoming_hashes stub_builtins [bad_row])
   \<and> status (fst (sync_from_excel stub_builtins no_faults fs1 clock0
        (clean \<lparr>lignes_factures = [ligne_of ''a''], sync_info = []\<rparr>) ''f.xlsx''
        [bad_row] True)) = ''error''
   \<and> nb_inserted (fst (sync_from_excel stub_builtins no_faults fs1 clock0
        (clean \<lparr>lignes_factures = [ligne_of ''a''], sync_info = []\<rparr>) ''f.xlsx''
        [bad_row] True)) = 0
   \<and> nb_deleted (fst (sync_from_excel stub_builtins no_faults fs1 clock0
        (clean \<lparr>lignes_factures = [ligne_of ''a''], sync_info = []\<rparr>) ''f.xlsx''
        [bad_row] True)) = 0
   \<and> lignes_factures (working (snd (sync_from_excel stub_builtins no_faults fs1 clock0
        (clean \<lparr>lignes_factures = [ligne_of ''a''], sync_info = []\<rparr>) ''f.xlsx''
        [bad_row] True))) = [ligne_of ''a'']"
proof -
  have h: "calculate_row_hash stub_builtins bad_row = ''x|abc''"
    by (simp add: calculate_row_hash_def bad_row_def row_values_def stub_builtins_def)
  have f: "real_field stub_builtins bad_row ''montant_initial''
       = Inl ''could not convert string to float''"
    by (simp add: real_field_def row_get_def bad_row_def stub_builtins_def parse_nat_abc)
  have d: "row_data stub_builtins ''x|abc'' bad_row = Inl ''could not convert string to float''"
    by (simp add: row_data_def f)
  show ?thesis
    by (simp add: sync_from_excel_def sync_body_def no_faults_def clean_def h d Let_def
          initial_stats_def on_error_def rollback_def stored_hashes_def incoming_hashes_def)
qed

text \<open>
  C2 (amended). Let the call be forced, or let \<open>file_needs_sync\<close> answer that a
  synchronisation is needed. Let no statement of the synchronisation raise: neither the
  \<^verbatim>\<open>SELECT\<close> of the stored hashes, nor the \<^verbatim>\<open>INSERT\<close>, nor the \<^verbatim>\<open>DELETE\<close> (which
  SQLite refuses when the stale hashes are more than its limit on bound parameters), nor
  the \<^verbatim>\<open>INSERT\<close> into \<^verbatim>\<open>sync_info\<close>, nor the commit. Let every incoming row convert
  (each amount cell is missing, a number, or a text that \<^verbatim>\<open>float\<close> accepts). Then:
  the call ends with status "success"; the cache holds afterwards the stored rows whose
  hash is among the incoming ones, as they were and in their order, followed by the
  stored form of the incoming rows with an unseen hash, the last row of each hash only;
  when the unseen hashes are pairwise distinct these are all the unseen rows, in their
  order; the hashes stored afterwards are exactly the hashes of the incoming rows; the
  counters are the number of incoming rows with a stored hash (unchanged), the number of
  incoming rows with an unseen hash (inserted) and the number of stored hashes absent
  from the incoming rows (deleted); and everything is committed. In particular, with
  stored hashes {A, B, C} and incoming hashes B, C, D, all distinct, the call reports
  1 inserted, 1 deleted, 2 unchanged and stores exactly {B, C, D}.
\<close>

theorem sync_from_excel_diff:
  assumes "force \<or> (\<exists>r. file_needs_sync F fs conn filepath = Inr (True, r))"
    and "F SelectHashes = None" and "F InsertLignes = None" and "F DeleteLignes = None"
    and "F InsertSyncInfo = None" and "F Commit = None"
    and "list_all (row_converts B) df"
  shows "status (fst (sync_from_excel B F fs clk conn filepath df force)) = ''success''
       \<and> lignes_factures (working (snd (sync_from_excel B F fs clk conn filepath df force)))
           = filter (\<lambda>l. hash_ligne l \<in> set (incoming_hashes B df))
               (lignes_factures (working conn))
             @ last_per_hash (map (stored_form B) (unseen B conn df))
       \<and> (distinct (incoming_hashes B (unseen B conn df))
          \<longrightarrow> lignes_factures (working (snd (sync_from_excel B F fs clk conn filepath df force)))
              = filter (\<lambda>l. hash_ligne l \<in> set (incoming_hashes B df))
                  (lignes_factures (working conn))
                @ map (stored_form B) (unseen B conn df))
       \<and> set (stored_hashes (snd (sync_from_excel B F fs clk conn filepath df force)))
           = set (incoming_hashes B df)
       \<and> nb_unchanged (fst (sync_from_excel B F fs clk conn filepath df force))
           = length (filter (\<lambda>h. h \<in> set (stored_hashes conn)) (incoming_hashes B df))
       \<and> nb_inserted (fst (sync_from_excel B F fs clk conn filepath df force))
           = length (filter (\<lambda>h. h \<notin> set (stored_hashes conn)) (incoming_hashes B df))
       \<and> nb_deleted (fst (sync_from_excel B F fs clk conn filepath df force))
           = card (set (stored_hashes conn) - set (incoming_hashes B df))
       \<and> committed (snd (sync_from_excel B F fs clk conn filepath df force))
           = working (snd (sync_from_excel B F fs clk conn filepath df force))
       \<and> (set (stored_hashes conn) = {hA, hB, hC} \<and> incoming_hashes B df = [hB, hC, hD]
            \<and> distinct [hA, hB, hC, hD]
          \<longrightarrow> nb_inserted (fst (sync_from_excel B F fs clk conn filepath df force)) = 1
              \<and> nb_deleted (fst (sync_from_excel B F fs clk conn filepath df force)) = 1
              \<and> nb_unchanged (fst (sync_from_excel B F fs clk conn filepath df force)) = 2
              \<and> set (stored_hashes (snd (sync_from_excel B F fs clk conn filepath df force)))
                  = {hB, hC, hD})"
proof -
  let ?R = "sync_from_excel B F fs clk conn filepath df force"
  let ?S = "sync_body B F fs clk conn filepath df"
  let ?hs = "incoming_hashes B df"
  let ?keep = "filter (\<lambda>l. hash_ligne l \<in> set ?hs) (lignes_factures (working conn))"
  have R: "?R = ?S"
    using assms(1) by (auto simp: sync_from_excel_def)
  have su: "status (fst ?S) = ''success''"
    using assms(2-7) by (rule sync_body_succeeds)
  then have ok: "status (fst ?S) \<noteq> ''error''" by simp
  note d = sync_body_diff[OF ok, folded R]
  from sync_body_rows[OF ok] obtain n new ins where
    it: "iterrows B (remdups (stored_hashes conn)) df (0, [], []) = Inr (n, new, ins)"
    and rows: "lignes_factures (working (snd ?S)) = ?keep @ executemany_insert [] ins"
    by blast
  from iterrows_rows[OF assms(7), of "remdups (stored_hashes conn)" 0 "[]" "[]"] it
  have ins: "ins = map (stored_form B) (unseen B conn df)"
    by (auto simp: unseen_def)
  have l1: "lignes_factures (working (snd ?R))
      = ?keep @ last_per_hash (map (stored_form B) (unseen B conn df))"
    unfolding R rows ins executemany_insert_last ..
  have l2: "lignes_factures (working (snd ?R)) = ?keep @ map (stored_form B) (unseen B conn df)"
    if "distinct (incoming_hashes B (unseen B conn df))"
  proof -
    have "map hash_ligne (map (stored_form B) (unseen B conn df))
        = incoming_hashes B (unseen B conn df)"
      by (simp add: incoming_hashes_def comp_def)
    then have "distinct (map hash_ligne (map (stored_form B) (unseen B conn df)))"
      using that by simp
    from last_per_hash_distinct[OF this] show ?thesis unfolding l1 by simp
  qed
  have ex: "nb_inserted (fst ?R) = 1 \<and> nb_deleted (fst ?R) = 1 \<and> nb_unchanged (fst ?R) = 2
       \<and> set (stored_hashes (snd ?R)) = {hB, hC, hD}"
    if a: "set (stored_hashes conn) = {hA, hB, hC} \<and> incoming_hashes B df = [hB, hC, hD]
            \<and> distinct [hA, hB, hC, hD]"
  proof -
    have s: "set (stored_hashes conn) - set (incoming_hashes B df) = {hA}"
      using a by auto
    show ?thesis
      unfolding d(1,2,3,5) s using a by auto
  qed
  have st: "status (fst ?R) = ''success''" unfolding R by (rule su)
  show ?thesis
    using st l1 l2 d(1,2,3,5,6) ex by blast
qed

theorem sync_from_excel_diff_witness:
  "status (fst (sync_from_excel stub_builtins no_faults fs1 clock0
      (clean \<lparr>lignes_factures = [ligne_of ''a'', ligne_of ''b'', ligne_of ''c''],
              sync_info = []\<rparr>) ''f.xlsx''
      [row_of ''b'', row_of ''c'', row_of ''d''] True)) = ''success''
   \<and> nb_inserted (fst (sync_from_excel stub_builtins no_faults fs1 clock0
      (clean \<lparr>lignes_factures = [ligne_of ''a'', ligne_of ''b'', ligne_of ''c''],
              sync_info = []\<rparr>) ''f.xlsx''
      [row_of ''b'', row_of ''c'', row_of ''d''] True)) = 1
   \<and> nb_deleted (fst (sync_from_excel stub_builtins no_faults fs1 clock0
      (clean \<lparr>lignes_factures = [ligne_of ''a'', ligne_of ''b'', ligne_of ''c''],
              sync_info = []\<rparr>) ''f.xlsx''
      [row_of ''b'', row_of ''c'', row_of ''d''] True)) = 1
   \<and> nb_unchanged (fst (sync_from_excel stub_builtins no_faults fs1 clock0
      (clean \<lparr>lignes_factures = [ligne_of ''a'', ligne_of ''b'', ligne_of ''c''],
              sync_info = []\<rparr>) ''f.xlsx''
      [row_of ''b'', row_of ''c'', row_of ''d''] True)) = 2
   \<and> lignes_factures (working (snd (sync_from_excel stub_builtins no_faults fs1 clock0
      (clean \<lparr>lignes_factures = [ligne_of ''a'', ligne_of ''b'', ligne_of ''c''],
              sync_info = []\<rparr>) ''f.xlsx''
      [row_of ''b'', row_of ''c'', row_of ''d''] True)))
       = [ligne_of ''b'', ligne_of ''c'', ligne_of ''d'']"
proof -
  let ?c1 = "clean \<lparr>lignes_factures = [ligne_of ''a'', ligne_of ''b'', ligne_of ''c''],
              sync_info = []\<rparr>"
  let ?df = "[row_of ''b'', row_of ''c'', row_of ''d'']"
  have st: "set (stored_hashes ?c1) = {''a'', ''b'', ''c''}"
    by (simp add: stored_hashes_def clean_def)
  have inc: "incoming_hashes stub_builtins ?df = [''b'', ''c'', ''d'']"
    by (simp add: incoming_hashes_def hash_row_of)
  have di: "distinct [''a'', ''b'', ''c'', ''d'']" by simp
  have cv: "list_all (row_converts stub_builtins) ?df"
    by (simp add: row_converts_def amount_converts_def row_get_def row_of_def)
  have un: "unseen stub_builtins ?c1 ?df = [row_of ''d'']"
    by (simp add: unseen_def hash_row_of stored_hashes_def clean_def)
  have sf: "stored_form stub_builtins (row_of ''d'') = ligne_of ''d''"
    unfolding stored_form_def hash_row_of
    by (simp add: ligne_of_def cell_text_def cell_amount_def row_get_def row_of_def)
  have du: "distinct (incoming_hashes stub_builtins (unseen stub_builtins ?c1 ?df))"
    unfolding un by (simp add: incoming_hashes_def)
  have keep: "filter (\<lambda>l. hash_ligne l \<in> set (incoming_hashes stub_builtins ?df))
        (lignes_factures (working ?c1)) = [ligne_of ''b'', ligne_of ''c'']"
    unfolding inc by (simp add: clean_def)
  have nf: "no_faults SelectHashes = None" "no_faults InsertLignes = None"
    "no_faults DeleteLignes = None" "no_faults InsertSyncInfo = None" "no_faults Commit = None"
    by (simp_all add: no_faults_def)
  note t = sync_from_excel_diff[where force=True and F=no_faults and B=stub_builtins
      and df="?df" and conn="?c1" and fs=fs1 and clk=clock0 and filepath="''f.xlsx''"
      and hA="''a''" and hB="''b''" and hC="''c''" and hD="''d''", OF _ nf cv]
  have t': "True \<or> (\<exists>r. file_needs_sync no_faults fs1 ?c1 ''f.xlsx'' = Inr (True, r))" by simp
  let ?R = "sync_from_excel stub_builtins no_faults fs1 clock0 ?c1 ''f.xlsx'' ?df True"
  note u = t[OF t']
  have S: "status (fst ?R) = ''success''"
    using u by blast
  have L: "lignes_factures (working (snd ?R))
      = [ligne_of ''b'', ligne_of ''c''] @ map (stored_form stub_builtins) [row_of ''d'']"
    using u du unfolding keep un by blast
  have E: "nb_inserted (fst ?R) = 1 \<and> nb_deleted (fst ?R) = 1 \<and> nb_unchanged (fst ?R) = 2"
    using u st inc di by blast
  show ?thesis
    using S L E by (simp add: sf)
qed

lemma last_snapshot_append:
  "fichier_path s = p \<Longrightarrow> last_snapshot (infos @ [s]) p = Some s"
  by (simp add: last_snapshot_def)

lemma snapshot_row_file:
  assumes "fs p = Some f"
  shows "fichier_path (snapshot_row fs clk p n st) = p"
    and "file_size (snapshot_row fs clk p n st) = st_size f"
    and "last_modified (snapshot_row fs clk p n st) = st_mtime f"
    and "nb_lignes (snapshot_row fs clk p n st) = n"
  using assms by (simp_all add: snapshot_row_def)

text \<open>
  C7 (as stated, refuted). The claim holds "for every input row list". With the empty
  row list, on an existing file and an empty cache, the first call succeeds and records
  a snapshot of 0 rows; the second call, without \<open>force\<close>, is not skipped (a snapshot of
  0 rows always asks for a synchronisation): it ends with status "success" and appends a
  second snapshot.
\<close>

theorem sync_twice_empty_counterexample:
  "status (fst (sync_from_excel stub_builtins no_faults fs1 clock0 (clean empty_db)
       ''f.xlsx'' [] False)) = ''success''
   \<and> status (fst (sync_from_excel stub_builtins no_faults fs1 clock0
       (snd (sync_from_excel stub_builtins no_faults fs1 clock0 (clean empty_db)
          ''f.xlsx'' [] False)) ''f.xlsx'' [] False)) = ''success''
   \<and> message (fst (sync_from_excel stub_builtins no_faults fs1 clock0
       (snd (sync_from_excel stub_builtins no_faults fs1 clock0 (clean empty_db)
          ''f.xlsx'' [] False)) ''f.xlsx'' [] False)) = None
   \<and> length (sync_info (working (snd (sync_from_excel stub_builtins no_faults fs1 clock0
       (snd (sync_from_excel stub_builtins no_faults fs1 clock0 (clean empty_db)
          ''f.xlsx'' [] False)) ''f.xlsx'' [] False)))) = 2"
proof -
  have r1: "sync_from_excel stub_builtins no_faults fs1 clock0 (clean empty_db) ''f.xlsx'' [] False
     = (initial_stats\<lparr>duration := 1\<rparr>,
        clean \<lparr>lignes_factures = [],
               sync_info = [\<lparr>fichier_path = ''f.xlsx'', last_modified = 5, file_size = 10,
                 file_hash = ''h1'', last_sync = 0, nb_lignes = 0, sync_status = ''success'',
                 sync_message = (0, 0, 0)\<rparr>]\<rparr>)"
    by (simp add: sync_from_excel_def sync_body_def file_needs_sync_def last_snapshot_def
          no_faults_def clean_def empty_db_def Let_def initial_stats_def commit_def
          snapshot_row_def fs1_def clock0_def calculate_file_hash_def)
  show ?thesis
    unfolding r1 snd_conv
    by (simp add: sync_from_excel_def sync_body_def file_needs_sync_def last_snapshot_def
          no_faults_def clean_def Let_def initial_stats_def commit_def
          snapshot_row_def fs1_def clock0_def calculate_file_hash_def)
qed

text \<open>
  C7 (amended). For a source file that exists and is the same at both calls, and a row
  list that is not empty: when a call does not end in error, the next call with the
  same rows and without \<open>force\<close> is skipped (whatever the clock, provided its query of
  the snapshots succeeds) and leaves the connection, rows and snapshot history, exactly
  as the first call left it.
\<close>

theorem sync_twice_skipped:
  assumes "fs filepath = Some f" and "df \<noteq> []" and "F' SelectSyncInfo = None"
    and "status (fst (sync_from_excel B F fs clk conn filepath df force)) \<noteq> ''error''"
  shows "status (fst (sync_from_excel B F' fs clk'
                 (snd (sync_from_excel B F fs clk conn filepath df force)) filepath df False))
           = ''skipped''
       \<and> snd (sync_from_excel B F' fs clk'
                 (snd (sync_from_excel B F fs clk conn filepath df force)) filepath df False)
           = snd (sync_from_excel B F fs clk conn filepath df force)"
proof -
  let ?R1 = "sync_from_excel B F fs clk conn filepath df force"
  have fn: "\<exists>r. file_needs_sync F' fs (snd ?R1) filepath = Inr (False, r)"
  proof (cases "?R1 = sync_body B F fs clk conn filepath df")
    case True
    then have ok: "status (fst (sync_body B F fs clk conn filepath df)) \<noteq> ''error''"
      using assms(4) by simp
    let ?s = "snapshot_row fs clk filepath (length df)
                 ((fst (sync_body B F fs clk conn filepath df))\<lparr>duration := 0\<rparr>)"
    have si: "sync_info (working (snd ?R1)) = sync_info (working conn) @ [?s]"
      unfolding True by (rule sync_body_diff(7)[OF ok])
    have ls: "last_snapshot (sync_info (working (snd ?R1))) filepath = Some ?s"
      unfolding si by (rule last_snapshot_append, rule snapshot_row_file(1), rule assms(1))
    have "file_needs_sync F' fs (snd ?R1) filepath = Inr (False, Inchange)"
      unfolding file_needs_sync_def
      using assms(1,2,3) ls
        snapshot_row_file(2,3,4)[where fs=fs and p=filepath and f=f and clk=clk
          and n="length df", OF assms(1)]
      by simp
    then show ?thesis by blast
  next
    case False
    then have nf: "\<not> force" by (auto simp: sync_from_excel_def)
    from False nf assms(4) obtain r where
      r: "file_needs_sync F fs conn filepath = Inr (False, r)" and c: "snd ?R1 = conn"
      by (auto simp: sync_from_excel_def split: sum.splits if_splits)
    have "F SelectSyncInfo = None"
      using r assms(1) by (auto simp: file_needs_sync_def split: option.splits)
    then have "file_needs_sync F' fs conn filepath = file_needs_sync F fs conn filepath"
      using assms(3) by (simp add: file_needs_sync_def cong: option.case_cong)
    then show ?thesis using r c by simp
  qed
  then obtain r where "file_needs_sync F' fs (snd ?R1) filepath = Inr (False, r)" ..
  then show ?thesis by (simp add: sync_from_excel_def)
qed

theorem sync_twice_skipped_witness:
  "status (fst (sync_from_excel stub_builtins no_faults fs1 clock0
       (snd (sync_from_excel stub_builtins no_faults fs1 clock0 (clean empty_db)
          ''f.xlsx'' [row_of ''a''] False)) ''f.xlsx'' [row_of ''a''] False)) = ''skipped''
   \<and> snd (sync_from_excel stub_builtins no_faults fs1 clock0
       (snd (sync_from_excel stub_builtins no_faults fs1 clock0 (clean empty_db)
          ''f.xlsx'' [row_of ''a''] False)) ''f.xlsx'' [row_of ''a''] False)
     = snd (sync_from_excel stub_builtins no_faults fs1 clock0 (clean empty_db)
          ''f.xlsx'' [row_of ''a''] False)
   \<and> nb_inserted (fst (sync_from_excel stub_builtins no_faults fs1 clock0 (clean empty_db)
          ''f.xlsx'' [row_of ''a''] False)) = 1"
proof -
  have f: "fs1 ''f.xlsx'' = Some \<lparr>st_size = 10, st_mtime = 5, digest = Some ''h1''\<rparr>"
    by (simp add: fs1_def)
  have ne: "[row_of ''a''] \<noteq> []" by simp
  have nf: "no_faults SelectSyncInfo = None" by (simp add: no_faults_def)
  have r1: "status (fst (sync_from_excel stub_builtins no_faults fs1 clock0 (clean empty_db)
          ''f.xlsx'' [row_of ''a''] False)) = ''success''
     \<and> nb_inserted (fst (sync_from_excel stub_builtins no_faults fs1 clock0 (clean empty_db)
          ''f.xlsx'' [row_of ''a''] False)) = 1"
    by (simp add: sync_from_excel_def sync_body_def file_needs_sync_def last_snapshot_def
          no_faults_def clean_def empty_db_def hash_row_of row_data_row_of Let_def
          initial_stats_def fs1_def)
  then have ok: "status (fst (sync_from_excel stub_builtins no_faults fs1 clock0 (clean empty_db)
          ''f.xlsx'' [row_of ''a''] False)) \<noteq> ''error''" by simp
  show ?thesis
    using sync_twice_skipped[where fs=fs1 and filepath="''f.xlsx''" and df="[row_of ''a'']"
        and f="\<lparr>st_size = 10, st_mtime = 5, digest = Some ''h1''\<rparr>"
        and F'=no_faults and F=no_faults and B=stub_builtins and clk=clock0 and clk'=clock0
        and conn="clean empty_db" and force=False, OF f ne nf ok] r1
    by simp
qed

end
